theory Spec2Isabelle
  imports Main
begin

section \<open>Python values used by the bot\<close>

text \<open>
  A Python \<open>str\<close> is modelled as a \<open>string\<close>: a list of characters, each a code point
  below 256 (ASCII and Latin-1), so that \<open>length\<close>, \<open>take\<close> and the character classes of
  \<open>re\<close> count what Python counts on such strings.  A value that may be \<open>None\<close> is an
  \<open>option\<close>.  The exceptions the modelled code can meet are values of \<open>error\<close>.
\<close>

datatype error = TypeError | AttributeError | OSError | ClientError | ParseError | JSONDecodeError
  | UnicodeDecodeError

text \<open>Truthiness, as \<open>if x:\<close> tests it, of an optional integer and of an optional string.\<close>

definition truthy_int :: "int option \<Rightarrow> bool" where
  "truthy_int x = (case x of None \<Rightarrow> False | Some n \<Rightarrow> n \<noteq> 0)"

definition truthy_str :: "string option \<Rightarrow> bool" where
  "truthy_str x = (case x of None \<Rightarrow> False | Some s \<Rightarrow> s \<noteq> [])"

text \<open>\<open>str(n)\<close> of an integer: decimal digits, with a minus sign when negative.\<close>

definition digit_char :: "nat \<Rightarrow> char" where
  "digit_char d = ''0123456789'' ! d"

function str_nat :: "nat \<Rightarrow> string" where
  "str_nat n = (if n < 10 then [digit_char n] else str_nat (n div 10) @ [digit_char (n mod 10)])"
  by pat_completeness auto
termination
  by (relation "measure id") auto

declare str_nat.simps [simp del]

definition str_int :: "int \<Rightarrow> string" where
  "str_int i = (if i < 0 then CHR ''-'' # str_nat (nat (- i)) else str_nat (nat i))"

text \<open>An f-string prints \<open>None\<close> as the word None.\<close>

definition fmt :: "string option \<Rightarrow> string" where
  "fmt x = (case x of None \<Rightarrow> ''None'' | Some s \<Rightarrow> s)"

section \<open>PubMedSearcher: the search expression\<close>

text \<open>
  Lines 70 to 72 of \<open>bot.py\<close>:
  \<^verbatim>\<open>search_term = keywords\<close>,
  \<^verbatim>\<open>if start_year and end_year: search_term += f" AND {start_year}[PDAT]:{end_year}[PDAT]"\<close>.
  The test is Python truthiness, so a bound that is \<open>None\<close> or \<open>0\<close> fails it.
\<close>

definition range_clause :: "int \<Rightarrow> int \<Rightarrow> string" where
  "range_clause a b = '' AND '' @ str_int a @ ''[PDAT]:'' @ str_int b @ ''[PDAT]''"

definition search_term :: "string \<Rightarrow> int option \<Rightarrow> int option \<Rightarrow> string" where
  "search_term keywords start_year end_year =
     (if truthy_int start_year \<and> truthy_int end_year
      then (case start_year of
              None \<Rightarrow> keywords
            | Some a \<Rightarrow> (case end_year of None \<Rightarrow> keywords | Some b \<Rightarrow> keywords @ range_clause a b))
      else keywords)"

text \<open>
  The search expression as the specification words it: the range clause is appended
  exactly when both bounds are given.
\<close>

definition spec_search_term :: "string \<Rightarrow> int option \<Rightarrow> int option \<Rightarrow> string" where
  "spec_search_term keywords year_from year_to =
     (case (year_from, year_to) of
        (Some a, Some b) \<Rightarrow> keywords @ range_clause a b
      | _ \<Rightarrow> keywords)"

section \<open>URL encoding\<close>

text \<open>
  \<open>urllib.parse.urlencode\<close> of a list of key and value pairs: each side goes through
  \<open>quote_plus\<close> (a space becomes a plus sign, the unreserved characters stay, every other
  character becomes the percent-escaped bytes of its UTF-8 encoding), the pairs are joined
  by an ampersand.
\<close>

definition always_safe :: "char \<Rightarrow> bool" where
  "always_safe c \<longleftrightarrow>
     c \<in> set ''ABCDEFGHIJKLMNOPQRSTUVWXYZabcdefghijklmnopqrstuvwxyz0123456789_.-~''"

definition hex_digit :: "nat \<Rightarrow> char" where
  "hex_digit d = ''0123456789ABCDEF'' ! d"

definition percent :: "nat \<Rightarrow> string" where
  "percent b = [CHR ''%'', hex_digit (b div 16), hex_digit (b mod 16)]"

definition utf8 :: "char \<Rightarrow> nat list" where
  "utf8 c = (let n = (of_char c :: nat) in
             if n < 128 then [n] else [192 + n div 64, 128 + n mod 64])"

definition quote_plus_char :: "char \<Rightarrow> string" where
  "quote_plus_char c =
     (if c = CHR '' '' then ''+''
      else if always_safe c then [c]
      else concat (map percent (utf8 c)))"

definition quote_plus :: "string \<Rightarrow> string" where
  "quote_plus s = concat (map quote_plus_char s)"

fun join :: "string \<Rightarrow> string list \<Rightarrow> string" where
  "join sep [] = []"
| "join sep [x] = x"
| "join sep (x # y # ys) = x @ sep @ join sep (y # ys)"

definition urlencode :: "(string \<times> string) list \<Rightarrow> string" where
  "urlencode params = join ''&'' (map (\<lambda>(k, v). quote_plus k @ ''='' @ quote_plus v) params)"

text \<open>\<open>sep.join(items)\<close> raises \<open>TypeError\<close> when an item is \<open>None\<close>.\<close>

definition join_items :: "string \<Rightarrow> string option list \<Rightarrow> error + string" where
  "join_items sep items =
     (case those items of None \<Rightarrow> Inl TypeError | Some xs \<Rightarrow> Inr (join sep xs))"

section \<open>Element trees\<close>

text \<open>
  An \<open>xml.etree.ElementTree.Element\<close>: tag, attributes, the text before the first child
  (\<open>None\<close> when there is none) and the children.  The path expressions the bot uses are
  modelled one by one; all of them list their matches in document order.
\<close>

datatype xml = Element (tag: string) (attrib: "(string \<times> string) list")
  (elem_text: "string option") (children: "xml list")

fun iter :: "xml \<Rightarrow> xml list" where
  "iter (Element t a x cs) = Element t a x cs # concat (map iter cs)"

definition descendants :: "xml \<Rightarrow> xml list" where
  "descendants e = concat (map iter (children e))"

definition first_match :: "xml list \<Rightarrow> xml option" where
  "first_match es = (case es of [] \<Rightarrow> None | e # _ \<Rightarrow> Some e)"

text \<open>\<open>e.findall('.//T')\<close> and \<open>e.find('.//T')\<close>.\<close>

definition findall_desc :: "string \<Rightarrow> xml \<Rightarrow> xml list" where
  "findall_desc t e = filter (\<lambda>d. tag d = t) (descendants e)"

definition find_desc :: "string \<Rightarrow> xml \<Rightarrow> xml option" where
  "find_desc t e = first_match (findall_desc t e)"

text \<open>\<open>e.find('T')\<close>: the first child with that tag.\<close>

definition find_child :: "string \<Rightarrow> xml \<Rightarrow> xml option" where
  "find_child t e = first_match (filter (\<lambda>c. tag c = t) (children e))"

text \<open>\<open>e.find('.//T[@k="v"]')\<close>.\<close>

definition find_desc_attr :: "string \<Rightarrow> string \<Rightarrow> string \<Rightarrow> xml \<Rightarrow> xml option" where
  "find_desc_attr t k v e =
     first_match (filter (\<lambda>d. tag d = t \<and> map_of (attrib d) k = Some v) (descendants e))"

text \<open>\<open>e.find('.//T/U')\<close>: the children tagged \<open>U\<close> of the descendants tagged \<open>T\<close>.\<close>

definition find_desc_child :: "string \<Rightarrow> string \<Rightarrow> xml \<Rightarrow> xml option" where
  "find_desc_child t u e =
     first_match (concat (map (\<lambda>d. filter (\<lambda>c. tag c = u) (children d)) (findall_desc t e)))"

section \<open>Paper records\<close>

text \<open>
  The dictionary \<open>_extract_paper_info\<close> builds has seven fixed keys; it is modelled as a
  record.  Every value is a string or \<open>None\<close> (the text of an element may be \<open>None\<close>),
  \<open>authors\<close> is a list of such values.
\<close>

record paper =
  title :: "string option"
  authors :: "string option list"
  abstract :: "string option"
  doi :: "string option"
  pmid :: "string option"
  year :: "string option"
  pdf_url :: "string option"

section \<open>The world: network and file system\<close>

datatype json = JNull | JBool bool | JNum int | JStr string | JArr "json list"
  | JObj "(string \<times> json) list"

text \<open>
  An HTTP response as the code reads it: the status, the \<open>content-type\<close> header, what
  \<open>await response.text()\<close> and \<open>await response.json()\<close> give (a value or an exception), the
  chunks \<open>response.content.iter_chunked\<close> yields, and whether the iteration raises after
  the last of them (a transfer that breaks off).
\<close>

record response =
  status :: int
  content_type :: "string option"
  text_result :: "error + string"
  json_result :: "error + json"
  chunks :: "string list"
  chunks_error :: bool

text \<open>
  A file holds a string of bytes.  Text is read and written as its characters (the text
  \<open>json.dump\<close> writes is ASCII).
\<close>

datatype content = Bytes string

text \<open>
  The state the code runs in.  \<open>net\<close> answers the \<open>n\<close>-th request of the session, sent to
  a URL, by a response or by an exception (connection error, timeout); \<open>requests\<close> logs
  the URLs requested so far.  \<open>files\<close> and \<open>dirs\<close> are the files and directories that
  exist.  The last four fields say what the operating system permits: where a directory
  can be created, which files can be opened for writing, to how many bytes a file can
  grow (disk space, size limits), and which files can be opened for reading.
\<close>

record world =
  net :: "nat \<Rightarrow> string \<Rightarrow> error + response"
  requests :: "string list"
  files :: "string \<rightharpoonup> content"
  dirs :: "string set"
  can_mkdir :: "string \<Rightarrow> bool"
  can_open :: "string \<Rightarrow> bool"
  can_write :: "string \<Rightarrow> nat \<Rightarrow> bool"
  can_read :: "string \<Rightarrow> bool"

type_synonym 'a result = "(error + 'a) \<times> world"

text \<open>\<open>session.get(url)\<close>: one network call, logged whether it succeeds or raises.\<close>

definition session_get :: "world \<Rightarrow> string \<Rightarrow> response result" where
  "session_get w url = (net w (length (requests w)) url, w\<lparr>requests := requests w @ [url]\<rparr>)"

text \<open>\<open>try: ... except Exception: return v\<close> around a whole function body.\<close>

definition try_except :: "'a result \<Rightarrow> (error \<Rightarrow> 'a) \<Rightarrow> 'a result" where
  "try_except r handler =
     (case r of (Inl e, w) \<Rightarrow> (Inr (handler e), w) | (Inr v, w) \<Rightarrow> (Inr v, w))"

section \<open>PubMedSearcher\<close>

definition BASE_URL :: string where
  "BASE_URL = ''https://eutils.ncbi.nlm.nih.gov/entrez/eutils''"

text \<open>The loop over the \<open>Author\<close> elements of \<open>_extract_paper_info\<close>.\<close>

fun author_names :: "xml list \<Rightarrow> string option list \<Rightarrow> string option list" where
  "author_names [] names = names"
| "author_names (author # rest) names =
     (case find_child ''LastName'' author of
        None \<Rightarrow> author_names rest names
      | Some last_name \<Rightarrow>
          (case find_child ''ForeName'' author of
             None \<Rightarrow> author_names rest (names @ [elem_text last_name])
           | Some first_name \<Rightarrow>
               author_names rest
                 (names @ [Some (fmt (elem_text first_name) @ '' '' @ fmt (elem_text last_name))])))"

text \<open>
  The body of \<open>_extract_paper_info\<close> inside its \<open>try\<close>.  No operation of it raises on an
  element tree, so it always returns the dictionary.
\<close>

definition extract_paper_info_body :: "xml \<Rightarrow> error + paper" where
  "extract_paper_info_body article =
     (let title' = (case find_desc ''ArticleTitle'' article of
                      None \<Rightarrow> Some ''No title'' | Some title_elem \<Rightarrow> elem_text title_elem);
          authors' = author_names (findall_desc ''Author'' article) [];
          abstract' = (case find_desc ''AbstractText'' article of
                         None \<Rightarrow> Some ''No abstract available''
                       | Some abstract_elem \<Rightarrow> elem_text abstract_elem);
          doi' = (case find_desc_attr ''ELocationID'' ''EIdType'' ''doi'' article of
                    None \<Rightarrow> None | Some doi_elem \<Rightarrow> elem_text doi_elem);
          pmid' = (case find_desc ''PMID'' article of
                     None \<Rightarrow> None | Some pmid_elem \<Rightarrow> elem_text pmid_elem);
          year' = (case find_desc_child ''PubDate'' ''Year'' article of
                     None \<Rightarrow> Some ''Unknown'' | Some year_elem \<Rightarrow> elem_text year_elem)
      in Inr \<lparr>title = title', authors = authors', abstract = abstract', doi = doi',
              pmid = pmid', year = year',
              pdf_url = (if truthy_str pmid'
                         then Some (''https://www.ncbi.nlm.nih.gov/pmc/articles/PMC''
                                    @ fmt pmid' @ ''/pdf/'')
                         else None)\<rparr>)"

text \<open>\<open>_extract_paper_info\<close>: the \<open>except\<close> branch returns \<open>None\<close>.\<close>

definition extract_paper_info :: "xml \<Rightarrow> paper option" where
  "extract_paper_info article =
     (case extract_paper_info_body article of Inl e \<Rightarrow> None | Inr paper_info \<Rightarrow> Some paper_info)"

text \<open>
  The loop of \<open>_fetch_paper_details\<close>: \<^verbatim>\<open>if paper_info: papers.append(paper_info)\<close>.  A
  dictionary with seven keys is truthy, \<open>None\<close> is not.
\<close>

fun collect_papers :: "xml list \<Rightarrow> paper list \<Rightarrow> paper list" where
  "collect_papers [] papers = papers"
| "collect_papers (article # rest) papers =
     (case extract_paper_info article of
        None \<Rightarrow> collect_papers rest papers
      | Some paper_info \<Rightarrow> collect_papers rest (papers @ [paper_info]))"

definition fetch_url :: "string \<Rightarrow> string" where
  "fetch_url ids = BASE_URL @ ''/efetch.fcgi?'' @
     urlencode [(''db'', ''pubmed''), (''id'', ids), (''retmode'', ''xml''),
                (''rettype'', ''abstract'')]"

text \<open>
  \<open>_fetch_paper_details\<close>.  \<open>fromstring\<close> stands for \<open>ET.fromstring\<close>, which returns the
  root element of a well-formed document and raises \<open>ParseError\<close> on any other text.
  The status of the response is not read.
\<close>

definition fetch_paper_details_body ::
  "(string \<Rightarrow> error + xml) \<Rightarrow> world \<Rightarrow> string option list \<Rightarrow> paper list result" where
  "fetch_paper_details_body fromstring w pmids =
     (case join_items '','' pmids of
        Inl e \<Rightarrow> (Inl e, w)
      | Inr ids \<Rightarrow>
          (case session_get w (fetch_url ids) of
             (Inl e, w1) \<Rightarrow> (Inl e, w1)
           | (Inr response, w1) \<Rightarrow>
               (case text_result response of
                  Inl e \<Rightarrow> (Inl e, w1)
                | Inr xml_data \<Rightarrow>
                    (case fromstring xml_data of
                       Inl e \<Rightarrow> (Inl e, w1)
                     | Inr root \<Rightarrow>
                         (Inr (collect_papers (findall_desc ''PubmedArticle'' root) []), w1)))))"

definition fetch_paper_details ::
  "(string \<Rightarrow> error + xml) \<Rightarrow> world \<Rightarrow> string option list \<Rightarrow> paper list result" where
  "fetch_paper_details fromstring w pmids =
     try_except (fetch_paper_details_body fromstring w pmids) (\<lambda>e. [])"

definition search_url :: "string \<Rightarrow> int \<Rightarrow> string" where
  "search_url term max_results = BASE_URL @ ''/esearch.fcgi?'' @
     urlencode [(''db'', ''pubmed''), (''term'', term), (''retmax'', str_int max_results),
                (''retmode'', ''xml''), (''sort'', ''relevance'')]"

text \<open>\<open>PubMedSearcher.search_papers\<close>: the body of the \<open>try\<close>, then the function.\<close>

definition search_papers_body ::
  "(string \<Rightarrow> error + xml) \<Rightarrow> world \<Rightarrow> string \<Rightarrow> int option \<Rightarrow> int option \<Rightarrow> int
     \<Rightarrow> paper list result" where
  "search_papers_body fromstring w keywords start_year end_year max_results =
     (case session_get w (search_url (search_term keywords start_year end_year) max_results) of
        (Inl e, w1) \<Rightarrow> (Inl e, w1)
      | (Inr response, w1) \<Rightarrow>
          if status response \<noteq> 200 then (Inr [], w1)
          else
            (case text_result response of
               Inl e \<Rightarrow> (Inl e, w1)
             | Inr xml_data \<Rightarrow>
                 (case fromstring xml_data of
                    Inl e \<Rightarrow> (Inl e, w1)
                  | Inr root \<Rightarrow>
                      (let pmids = map elem_text (findall_desc ''Id'' root)
                       in if pmids = [] then (Inr [], w1)
                          else fetch_paper_details fromstring w1 pmids))))"

definition search_papers ::
  "(string \<Rightarrow> error + xml) \<Rightarrow> world \<Rightarrow> string \<Rightarrow> int option \<Rightarrow> int option \<Rightarrow> int
     \<Rightarrow> paper list result" where
  "search_papers fromstring w keywords start_year end_year max_results =
     try_except (search_papers_body fromstring w keywords start_year end_year max_results)
       (\<lambda>e. [])"

section \<open>The character classes of the file name pattern\<close>

text \<open>
  The classes \<open>\w\<close> and \<open>\s\<close> of a \<open>str\<close> pattern, on the code points below 256:
  \<open>\w\<close> matches the alphanumeric characters (letters, and digits in the wide sense of
  \<open>str.isalnum\<close>) and the underscore; \<open>\s\<close> matches the whitespace characters.
\<close>

definition is_letter :: "char \<Rightarrow> bool" where
  "is_letter c = (let n = (of_char c :: nat) in
     (65 \<le> n \<and> n \<le> 90) \<or> (97 \<le> n \<and> n \<le> 122) \<or> n = 170 \<or> n = 181 \<or> n = 186 \<or>
     (192 \<le> n \<and> n \<le> 214) \<or> (216 \<le> n \<and> n \<le> 246) \<or> 248 \<le> n)"

definition is_digit :: "char \<Rightarrow> bool" where
  "is_digit c = (let n = (of_char c :: nat) in
     (48 \<le> n \<and> n \<le> 57) \<or> n = 178 \<or> n = 179 \<or> n = 185 \<or> (188 \<le> n \<and> n \<le> 190))"

definition is_space :: "char \<Rightarrow> bool" where
  "is_space c = (let n = (of_char c :: nat) in
     (9 \<le> n \<and> n \<le> 13) \<or> (28 \<le> n \<and> n \<le> 32) \<or> n = 133 \<or> n = 160)"

definition is_word :: "char \<Rightarrow> bool" where
  "is_word c \<longleftrightarrow> is_letter c \<or> is_digit c \<or> c = CHR ''_''"

text \<open>The pattern \<^verbatim>\<open>[^\w\s-]\<close>: one character that is none of these.\<close>

definition unsafe_char :: "char \<Rightarrow> bool" where
  "unsafe_char c \<longleftrightarrow> \<not> (is_word c \<or> is_space c \<or> c = CHR ''-'')"

text \<open>
  \<open>re.sub(pattern, '', s)\<close> for a pattern that matches single characters: every
  matching character is deleted.
\<close>

fun re_sub_delete :: "(char \<Rightarrow> bool) \<Rightarrow> string \<Rightarrow> string" where
  "re_sub_delete matches [] = []"
| "re_sub_delete matches (c # cs) =
     (if matches c then re_sub_delete matches cs else c # re_sub_delete matches cs)"

text \<open>\<open>needle in haystack\<close> on strings.\<close>

fun contains :: "string \<Rightarrow> string \<Rightarrow> bool" where
  "contains needle [] \<longleftrightarrow> needle = []"
| "contains needle (c # cs) \<longleftrightarrow>
     take (length needle) (c # cs) = needle \<or> contains needle cs"

section \<open>File system operations\<close>

text \<open>\<open>Path(d) / name\<close>, \<open>p.exists()\<close> and \<open>d.mkdir(exist_ok=True)\<close>.\<close>

definition path_join :: "string \<Rightarrow> string \<Rightarrow> string" where
  "path_join d name = d @ ''/'' @ name"

definition path_exists :: "world \<Rightarrow> string \<Rightarrow> bool" where
  "path_exists w p \<longleftrightarrow> p \<in> dom (files w) \<or> p \<in> dirs w"

definition mkdir_exist_ok :: "world \<Rightarrow> string \<Rightarrow> unit result" where
  "mkdir_exist_ok w d =
     (if d \<in> dirs w then (Inr (), w)
      else if can_mkdir w d then (Inr (), w\<lparr>dirs := insert d (dirs w)\<rparr>)
      else (Inl OSError, w))"

text \<open>
  The loop \<^verbatim>\<open>async for chunk in ...: f.write(chunk)\<close> on a file that holds \<open>data\<close>:
  a write that the operating system refuses raises \<open>OSError\<close>, and the file keeps what
  the earlier writes put there.
\<close>

fun write_loop :: "world \<Rightarrow> string \<Rightarrow> string \<Rightarrow> string list \<Rightarrow> unit result" where
  "write_loop w filepath data [] = (Inr (), w)"
| "write_loop w filepath data (chunk # rest) =
     (if can_write w filepath (length data + length chunk)
      then write_loop (w\<lparr>files := (files w)(filepath \<mapsto> Bytes (data @ chunk))\<rparr>) filepath
             (data @ chunk) rest
      else (Inl OSError, w))"

text \<open>
  \<^verbatim>\<open>with open(filepath, 'wb') as f:\<close> followed by that loop over the chunks of the
  response.  Opening creates the file (or empties it).  The loop ends by an exception
  when a write is refused, or, after the chunks received, when the stream breaks off;
  either way the file stays, with what was written.
\<close>

definition write_chunks :: "world \<Rightarrow> string \<Rightarrow> response \<Rightarrow> unit result" where
  "write_chunks w filepath response =
     (if can_open w filepath
      then (case write_loop (w\<lparr>files := (files w)(filepath \<mapsto> Bytes [])\<rparr>) filepath []
                   (chunks response) of
              (Inl e, w1) \<Rightarrow> (Inl e, w1)
            | (Inr u, w1) \<Rightarrow>
                if chunks_error response then (Inl ClientError, w1) else (Inr (), w1))
      else (Inl OSError, w))"

section \<open>JSON values\<close>

fun truthy_json :: "json \<Rightarrow> bool" where
  "truthy_json JNull \<longleftrightarrow> False"
| "truthy_json (JBool b) \<longleftrightarrow> b"
| "truthy_json (JNum n) \<longleftrightarrow> n \<noteq> 0"
| "truthy_json (JStr s) \<longleftrightarrow> s \<noteq> []"
| "truthy_json (JArr xs) \<longleftrightarrow> xs \<noteq> []"
| "truthy_json (JObj kvs) \<longleftrightarrow> kvs \<noteq> []"

text \<open>\<open>d.get(k)\<close>: \<open>None\<close> for a missing key; a value that is no dictionary has no \<open>get\<close>.\<close>

definition json_get :: "json \<Rightarrow> string \<Rightarrow> error + json" where
  "json_get d k =
     (case d of
        JObj kvs \<Rightarrow> Inr (case map_of kvs k of None \<Rightarrow> JNull | Some v \<Rightarrow> v)
      | _ \<Rightarrow> Inl AttributeError)"

section \<open>Downloading a paper\<close>

text \<open>
  \<open>_download_pdf_direct\<close>.  The URL comes out of a JSON document; \<open>session.get\<close> raises
  on a value that is no string.  Any response with status 200 is written to the file.
\<close>

definition download_pdf_direct_body :: "world \<Rightarrow> json \<Rightarrow> string \<Rightarrow> bool result" where
  "download_pdf_direct_body w url filepath =
     (case url of
        JStr u \<Rightarrow>
          (case session_get w u of
             (Inl e, w1) \<Rightarrow> (Inl e, w1)
           | (Inr response, w1) \<Rightarrow>
               if status response = 200
               then (case write_chunks w1 filepath response of
                       (Inl e, w2) \<Rightarrow> (Inl e, w2)
                     | (Inr _, w2) \<Rightarrow> (Inr True, w2))
               else (Inr False, w1))
      | _ \<Rightarrow> (Inl TypeError, w))"

definition download_pdf_direct :: "world \<Rightarrow> json \<Rightarrow> string \<Rightarrow> bool result" where
  "download_pdf_direct w url filepath =
     try_except (download_pdf_direct_body w url filepath) (\<lambda>e. False)"

text \<open>
  One round of the loop over \<open>urls_to_try\<close>, inside its \<open>try\<close>: \<open>Some b\<close> when the round
  executes \<open>return b\<close>, \<open>None\<close> when it falls through to the next URL.
\<close>

definition try_url :: "world \<Rightarrow> string \<Rightarrow> string \<Rightarrow> bool option result" where
  "try_url w filepath url =
     (case session_get w url of
        (Inl e, w1) \<Rightarrow> (Inl e, w1)
      | (Inr response, w1) \<Rightarrow>
          if status response = 200
          then (let content_type' = (case content_type response of None \<Rightarrow> [] | Some c \<Rightarrow> c)
                in if contains ''application/pdf'' content_type'
                   then (case write_chunks w1 filepath response of
                           (Inl e, w2) \<Rightarrow> (Inl e, w2)
                         | (Inr _, w2) \<Rightarrow> (Inr (Some True), w2))
                   else if contains ''application/json'' content_type'
                   then (case json_result response of
                           Inl e \<Rightarrow> (Inl e, w1)
                         | Inr data \<Rightarrow>
                             (case json_get data ''is_oa'' of
                                Inl e \<Rightarrow> (Inl e, w1)
                              | Inr is_oa \<Rightarrow>
                                  if \<not> truthy_json is_oa then (Inr None, w1)
                                  else
                                    (case json_get data ''best_oa_location'' of
                                       Inl e \<Rightarrow> (Inl e, w1)
                                     | Inr location \<Rightarrow>
                                         if \<not> truthy_json location then (Inr None, w1)
                                         else
                                           (case json_get location ''url_for_pdf'' of
                                              Inl e \<Rightarrow> (Inl e, w1)
                                            | Inr pdf_url' \<Rightarrow>
                                                if truthy_json pdf_url'
                                                then (case download_pdf_direct w1 pdf_url' filepath of
                                                        (Inl e, w2) \<Rightarrow> (Inl e, w2)
                                                      | (Inr b, w2) \<Rightarrow> (Inr (Some b), w2))
                                                else (Inr None, w1)))))
                   else (Inr None, w1))
          else (Inr None, w1))"

text \<open>
  The loop: an exception of a round is caught and the loop continues; when no URL is
  left the function returns \<open>False\<close>.
\<close>

fun try_urls :: "world \<Rightarrow> string \<Rightarrow> string list \<Rightarrow> bool \<times> world" where
  "try_urls w filepath [] = (False, w)"
| "try_urls w filepath (url # urls) =
     (case try_url w filepath url of
        (Inl e, w1) \<Rightarrow> try_urls w1 filepath urls
      | (Inr None, w1) \<Rightarrow> try_urls w1 filepath urls
      | (Inr (Some b), w1) \<Rightarrow> (b, w1))"

definition unpaywall_url :: "string \<Rightarrow> string" where
  "unpaywall_url d = ''https://api.unpaywall.org/v2/'' @ d @ ''?email=research@example.com''"

definition pmc_url :: "string \<Rightarrow> string" where
  "pmc_url i = ''https://www.ncbi.nlm.nih.gov/pmc/articles/PMC'' @ i @ ''/pdf/''"

definition urls_to_try :: "paper \<Rightarrow> string list" where
  "urls_to_try paper =
     (if truthy_str (doi paper) then [unpaywall_url (fmt (doi paper))] else [])
     @ (if truthy_str (pmid paper) then [pmc_url (fmt (pmid paper))] else [])"

text \<open>
  The file name of lines 434 and 435.  \<open>re.sub\<close> raises \<open>TypeError\<close> on a title that is
  \<open>None\<close>; \<^verbatim>\<open>paper['pmid'] or 'unknown'\<close> takes the placeholder for a \<open>pmid\<close>
  that is \<open>None\<close> or empty.
\<close>

definition target_filename :: "paper \<Rightarrow> error + string" where
  "target_filename paper =
     (case title paper of
        None \<Rightarrow> Inl TypeError
      | Some t \<Rightarrow>
          (let safe_title = take 50 (re_sub_delete unsafe_char t)
           in Inr ((if truthy_str (pmid paper) then fmt (pmid paper) else ''unknown'')
                   @ ''_'' @ safe_title @ ''.pdf'')))"

text \<open>\<open>_try_download_paper\<close>.  Nothing in it catches what \<open>mkdir\<close> or \<open>re.sub\<close> raise.\<close>

definition try_download_paper :: "world \<Rightarrow> paper \<Rightarrow> string \<Rightarrow> bool result" where
  "try_download_paper w paper download_dir =
     (case mkdir_exist_ok w download_dir of
        (Inl e, w0) \<Rightarrow> (Inl e, w0)
      | (Inr _, w0) \<Rightarrow>
          (case target_filename paper of
             Inl e \<Rightarrow> (Inl e, w0)
           | Inr filename \<Rightarrow>
               (let filepath = path_join download_dir filename
                in if path_exists w0 filepath then (Inr True, w0)
                   else (case try_urls w0 filepath (urls_to_try paper) of
                           (b, w1) \<Rightarrow> (Inr b, w1)))))"

text \<open>
  The file name as the specification words it: the title without the characters outside
  letters, digits, whitespace and hyphen, cut to 50 characters, after the external id (or
  \<open>unknown\<close> when there is none) and an underscore, before \<open>.pdf\<close>.
\<close>

definition spec_filename :: "string option \<Rightarrow> string \<Rightarrow> string" where
  "spec_filename external_id t =
     (case external_id of None \<Rightarrow> ''unknown'' | Some i \<Rightarrow> i) @ ''_''
     @ take 50 (filter (\<lambda>c. is_letter c \<or> is_digit c \<or> is_space c \<or> c = CHR ''-'') t)
     @ ''.pdf''"

section \<open>JSON text\<close>

text \<open>
  \<open>json.dump(obj, f, indent=2)\<close> as the code calls it, with the defaults of the
  \<open>json\<close> module: \<open>ensure_ascii\<close>, so a string is written between double quotes with
  the double quote, the backslash and the control characters 8, 9, 10, 12 and 13 as
  two-character escapes, every other character outside the range 32 to 126 as
  \<^verbatim>\<open>\u00XX\<close> in lower-case hexadecimal (code points are below 256 here), and the rest
  as they are.  With an indent, an empty list is \<^verbatim>\<open>[]\<close> and an empty dictionary
  \<^verbatim>\<open>{}\<close>; otherwise each item is on a line of its own, indented by two spaces per
  level, the separators are a comma at the end of the line and a colon followed by a
  space, and the closing bracket is on a line of its own.  A dictionary is an association
  list in insertion order.
\<close>

definition dq :: char where "dq = CHR 0x22"
definition bs :: char where "bs = CHR 0x5C"

definition hex_lower :: "nat \<Rightarrow> char" where
  "hex_lower d = ''0123456789abcdef'' ! d"

definition escape_char :: "char \<Rightarrow> string" where
  "escape_char c =
     (if c = dq then [bs, dq]
      else if c = bs then [bs, bs]
      else if c = CHR 0x0A then [bs, CHR ''n'']
      else if c = CHR 0x0D then [bs, CHR ''r'']
      else if c = CHR 0x09 then [bs, CHR ''t'']
      else if c = CHR 0x08 then [bs, CHR ''b'']
      else if c = CHR 0x0C then [bs, CHR ''f'']
      else if 32 \<le> (of_char c :: nat) \<and> (of_char c :: nat) \<le> 126 then [c]
      else [bs, CHR ''u'', CHR ''0'', CHR ''0'', hex_lower ((of_char c :: nat) div 16),
            hex_lower ((of_char c :: nat) mod 16)])"

definition dumps_str :: "string \<Rightarrow> string" where
  "dumps_str s = dq # concat (map escape_char s) @ [dq]"

definition newline_indent :: "nat \<Rightarrow> string" where
  "newline_indent level = CHR 0x0A # replicate (2 * level) CHR '' ''"

fun dumps :: "nat \<Rightarrow> json \<Rightarrow> string"
  and dumps_items :: "nat \<Rightarrow> json list \<Rightarrow> string"
  and dumps_members :: "nat \<Rightarrow> (string \<times> json) list \<Rightarrow> string" where
  "dumps level JNull = ''null''"
| "dumps level (JBool b) = (if b then ''true'' else ''false'')"
| "dumps level (JNum n) = str_int n"
| "dumps level (JStr s) = dumps_str s"
| "dumps level (JArr xs) =
     (if xs = [] then ''[]''
      else ''['' @ newline_indent (Suc level) @ dumps_items (Suc level) xs
           @ newline_indent level @ '']'')"
| "dumps level (JObj kvs) =
     (if kvs = [] then ''{}''
      else ''{'' @ newline_indent (Suc level) @ dumps_members (Suc level) kvs
           @ newline_indent level @ ''}'')"
| "dumps_items level [] = []"
| "dumps_items level [x] = dumps level x"
| "dumps_items level (x # y # ys) =
     dumps level x @ '','' @ newline_indent level @ dumps_items level (y # ys)"
| "dumps_members level [] = []"
| "dumps_members level [(k, v)] = dumps_str k @ '': '' @ dumps level v"
| "dumps_members level ((k, v) # m # ms) =
     dumps_str k @ '': '' @ dumps level v @ '','' @ newline_indent level
     @ dumps_members level (m # ms)"

text \<open>
  \<open>json.load(f)\<close>, the decoder of the \<open>json\<close> module with its defaults.  White space
  is space, tab, line feed and carriage return.  A string ends at the next double
  quote; a backslash starts one of the escapes of JSON; a raw character below 32 is
  rejected (the decoder is strict).  Of the \<^verbatim>\<open>\uXXXX\<close> escapes (either case of the
  hexadecimal digits) only those of a code point below 256 have a value here.  Numbers
  are the integers: a number with a fraction or an exponent, and the words \<open>NaN\<close> and
  \<open>Infinity\<close>, have no value here, since \<open>json\<close> has no constructor for a float.
  Where this decoder gives a value, \<open>json.load\<close> gives the same.  A dictionary keeps
  the position of the first occurrence of a key and the value of the last, as \<open>dict\<close>
  does.
\<close>

definition is_ws :: "char \<Rightarrow> bool" where
  "is_ws c \<longleftrightarrow> c = CHR '' '' \<or> c = CHR 0x09 \<or> c = CHR 0x0A \<or> c = CHR 0x0D"

definition skip_ws :: "string \<Rightarrow> string" where
  "skip_ws s = dropWhile is_ws s"

definition hex_value :: "char \<Rightarrow> nat option" where
  "hex_value c = (let n = (of_char c :: nat) in
     if 48 \<le> n \<and> n \<le> 57 then Some (n - 48)
     else if 97 \<le> n \<and> n \<le> 102 then Some (n - 87)
     else if 65 \<le> n \<and> n \<le> 70 then Some (n - 55)
     else None)"

definition unescape :: "char \<Rightarrow> char option" where
  "unescape e =
     (if e = dq then Some dq
      else if e = bs then Some bs
      else if e = CHR ''/'' then Some CHR ''/''
      else if e = CHR ''b'' then Some (CHR 0x08)
      else if e = CHR ''f'' then Some (CHR 0x0C)
      else if e = CHR ''n'' then Some (CHR 0x0A)
      else if e = CHR ''r'' then Some (CHR 0x0D)
      else if e = CHR ''t'' then Some (CHR 0x09)
      else None)"

definition hex4 :: "char \<Rightarrow> char \<Rightarrow> char \<Rightarrow> char \<Rightarrow> char option" where
  "hex4 a b c d =
     (case (hex_value a, hex_value b, hex_value c, hex_value d) of
        (Some x, Some y, Some z, Some u) \<Rightarrow>
          (if x = 0 \<and> y = 0 then Some (char_of (16 * z + u)) else None)
      | _ \<Rightarrow> None)"

definition cons_result :: "char \<Rightarrow> (string \<times> string) option \<Rightarrow> (string \<times> string) option" where
  "cons_result c res = (case res of None \<Rightarrow> None | Some (s, r) \<Rightarrow> Some (c # s, r))"

text \<open>The characters of a string after its opening quote, and what follows the closing one.\<close>

fun parse_string :: "string \<Rightarrow> (string \<times> string) option" where
  "parse_string [] = None"
| "parse_string (c # r) =
     (if c = dq then Some ([], r)
      else if c = bs then
        (case r of
           [] \<Rightarrow> None
         | e # r1 \<Rightarrow>
             if e = CHR ''u'' then
               (case r1 of
                  a # b # c' # d # r2 \<Rightarrow>
                    (case hex4 a b c' d of
                       None \<Rightarrow> None
                     | Some ch \<Rightarrow> cons_result ch (parse_string r2))
                | _ \<Rightarrow> None)
             else (case unescape e of
                     None \<Rightarrow> None
                   | Some ch \<Rightarrow> cons_result ch (parse_string r1)))
      else if (of_char c :: nat) < 32 then None
      else cons_result c (parse_string r))"

definition is_dec :: "char \<Rightarrow> bool" where
  "is_dec c \<longleftrightarrow> 48 \<le> (of_char c :: nat) \<and> (of_char c :: nat) \<le> 57"

definition dec_value :: "string \<Rightarrow> nat" where
  "dec_value ds = foldl (\<lambda>a c. 10 * a + ((of_char c :: nat) - 48)) 0 ds"

definition parse_number :: "string \<Rightarrow> (json \<times> string) option" where
  "parse_number s =
     (let negative = (s \<noteq> [] \<and> hd s = CHR ''-'');
          t = (if negative then tl s else s)
      in case t of
           [] \<Rightarrow> None
         | d # r \<Rightarrow>
             if \<not> is_dec d then None
             else (let ds = (if d = CHR ''0'' then [d] else d # takeWhile is_dec r);
                       rest = drop (length ds) t
                   in if rest \<noteq> [] \<and> hd rest \<in> {CHR ''.'', CHR ''e'', CHR ''E''} then None
                      else Some (JNum (if negative then - int (dec_value ds)
                                       else int (dec_value ds)), rest)))"

definition parse_literal :: "string \<Rightarrow> (json \<times> string) option" where
  "parse_literal s =
     (if take 4 s = ''null'' then Some (JNull, drop 4 s)
      else if take 4 s = ''true'' then Some (JBool True, drop 4 s)
      else if take 5 s = ''false'' then Some (JBool False, drop 5 s)
      else parse_number s)"

text \<open>\<open>d[k] = v\<close> and \<open>d.update(pairs)\<close> on a dictionary kept in insertion order.\<close>

fun dict_set :: "(string \<times> json) list \<Rightarrow> string \<Rightarrow> json \<Rightarrow> (string \<times> json) list" where
  "dict_set [] k v = [(k, v)]"
| "dict_set ((k', v') # kvs) k v =
     (if k' = k then (k, v) # kvs else (k', v') # dict_set kvs k v)"

definition dict_update :: "(string \<times> json) list \<Rightarrow> (string \<times> json) list \<Rightarrow> (string \<times> json) list" where
  "dict_update d kvs = foldl (\<lambda>d (k, v). dict_set d k v) d kvs"

text \<open>
  The decoder proper, by recursive descent.  The first argument bounds the depth of the
  recursion; \<open>loads\<close> starts it with more than the length of the text, and the text must
  hold one value and then white space only.
\<close>

fun parse_value :: "nat \<Rightarrow> string \<Rightarrow> (json \<times> string) option"
  and parse_items :: "nat \<Rightarrow> string \<Rightarrow> (json list \<times> string) option"
  and parse_members :: "nat \<Rightarrow> string \<Rightarrow> ((string \<times> json) list \<times> string) option" where
  "parse_value 0 s = None"
| "parse_value (Suc n) s =
     (case skip_ws s of
        [] \<Rightarrow> None
      | c # r \<Rightarrow>
          if c = dq then
            (case parse_string r of None \<Rightarrow> None | Some (x, r1) \<Rightarrow> Some (JStr x, r1))
          else if c = CHR ''['' then
            (case skip_ws r of
               [] \<Rightarrow> None
             | c1 # r1 \<Rightarrow>
                 if c1 = CHR '']'' then Some (JArr [], r1)
                 else (case parse_items n r of
                         None \<Rightarrow> None
                       | Some (xs, r2) \<Rightarrow> Some (JArr xs, r2)))
          else if c = CHR ''{'' then
            (case skip_ws r of
               [] \<Rightarrow> None
             | c1 # r1 \<Rightarrow>
                 if c1 = CHR ''}'' then Some (JObj [], r1)
                 else (case parse_members n r of
                         None \<Rightarrow> None
                       | Some (kvs, r2) \<Rightarrow> Some (JObj (dict_update [] kvs), r2)))
          else parse_literal (c # r))"
| "parse_items 0 s = None"
| "parse_items (Suc n) s =
     (case parse_value n s of
        None \<Rightarrow> None
      | Some (x, r) \<Rightarrow>
          (case skip_ws r of
             [] \<Rightarrow> None
           | c # r1 \<Rightarrow>
               if c = CHR '','' then
                 (case parse_items n r1 of
                    None \<Rightarrow> None
                  | Some (xs, r2) \<Rightarrow> Some (x # xs, r2))
               else if c = CHR '']'' then Some ([x], r1)
               else None))"
| "parse_members 0 s = None"
| "parse_members (Suc n) s =
     (case skip_ws s of
        [] \<Rightarrow> None
      | c # r \<Rightarrow>
          if c \<noteq> dq then None
          else (case parse_string r of
                  None \<Rightarrow> None
                | Some (k, r1) \<Rightarrow>
                    (case skip_ws r1 of
                       [] \<Rightarrow> None
                     | c1 # r2 \<Rightarrow>
                         if c1 \<noteq> CHR '':'' then None
                         else (case parse_value n r2 of
                                 None \<Rightarrow> None
                               | Some (v, r3) \<Rightarrow>
                                   (case skip_ws r3 of
                                      [] \<Rightarrow> None
                                    | c3 # r4 \<Rightarrow>
                                        if c3 = CHR '','' then
                                          (case parse_members n r4 of
                                             None \<Rightarrow> None
                                           | Some (kvs, r5) \<Rightarrow> Some ((k, v) # kvs, r5))
                                        else if c3 = CHR ''}'' then Some ([(k, v)], r4)
                                        else None)))))"

definition loads :: "string \<Rightarrow> error + json" where
  "loads s =
     (case parse_value (Suc (length s)) s of
        None \<Rightarrow> Inl JSONDecodeError
      | Some (v, r) \<Rightarrow> if skip_ws r = [] then Inr v else Inl JSONDecodeError)"

text \<open>
  The Python value of a paper record, the dictionary of \<open>_extract_paper_info\<close> with its
  seven keys in the order of the source, and of a list of them.
\<close>

definition opt_json :: "string option \<Rightarrow> json" where
  "opt_json x = (case x of None \<Rightarrow> JNull | Some s \<Rightarrow> JStr s)"

definition paper_json :: "paper \<Rightarrow> json" where
  "paper_json p = JObj
     [(''title'', opt_json (title p)), (''authors'', JArr (map opt_json (authors p))),
      (''abstract'', opt_json (abstract p)), (''doi'', opt_json (doi p)),
      (''pmid'', opt_json (pmid p)), (''year'', opt_json (year p)),
      (''pdf_url'', opt_json (pdf_url p))]"

definition papers_json :: "paper list \<Rightarrow> json" where
  "papers_json papers = JArr (map paper_json papers)"

text \<open>
  A value round-trips when its text, at every level of indentation and whatever
  follows it, is decoded to the value itself, and starts with a character that is
  neither white space nor a closing bracket.
\<close>

definition round_trips :: "json \<Rightarrow> bool" where
  "round_trips v \<longleftrightarrow>
     (\<forall>level. \<exists>c t. dumps level v = c # t \<and> \<not> is_ws c \<and> c \<noteq> CHR '']'' \<and> c \<noteq> CHR ''}'') \<and>
     (\<forall>level r m. length (dumps level v) < m \<longrightarrow>
        parse_value m (dumps level v @ r) = Some (v, r))"

section \<open>The commands: saving, loading, the download loop\<close>

text \<open>
  \<^verbatim>\<open>with open(p, 'w') as f:\<close> followed by writes of a text, and
  \<^verbatim>\<open>with open(p, 'r') as f:\<close> followed by a read of the whole file.  Opening for
  writing creates the file (or empties it).  The text goes to the file through a
  buffer, so a write that the operating system refuses raises \<open>OSError\<close> after any
  number of characters, and the file keeps those: the text is written character by
  character.  Reading raises \<open>OSError\<close> for a path that is no file or cannot be opened.
  The text written is ASCII; for a file with a byte over 127 what is read depends on
  the encoding of the platform, and reading it is taken to raise.
\<close>

definition is_ascii :: "string \<Rightarrow> bool" where
  "is_ascii t \<longleftrightarrow> list_all (\<lambda>c. (of_char c :: nat) < 128) t"

definition write_text :: "world \<Rightarrow> string \<Rightarrow> string \<Rightarrow> unit result" where
  "write_text w filepath t =
     (if can_open w filepath
      then write_loop (w\<lparr>files := (files w)(filepath \<mapsto> Bytes [])\<rparr>) filepath []
             (map (\<lambda>c. [c]) t)
      else (Inl OSError, w))"

definition read_text :: "world \<Rightarrow> string \<Rightarrow> error + string" where
  "read_text w filepath =
     (if can_read w filepath
      then (case files w filepath of
              None \<Rightarrow> Inl OSError
            | Some (Bytes t) \<Rightarrow> if is_ascii t then Inr t else Inl UnicodeDecodeError)
      else Inl OSError)"

text \<open>
  \<open>ProjectManager.update_metadata\<close>, lines 221 to 235: the dictionary read from
  \<open>metadata.json\<close>, or the empty one when there is no such file, is updated, stamped and
  written back.  \<open>now\<close> is what \<open>datetime.now().isoformat()\<close> gives.  A document that is
  no dictionary has no \<open>update\<close>.
\<close>

definition update_metadata ::
  "world \<Rightarrow> string \<Rightarrow> (string \<times> json) list \<Rightarrow> string \<Rightarrow> unit result" where
  "update_metadata w project_dir updates now =
     (let metadata_file = path_join project_dir ''metadata.json''
      in case (if path_exists w metadata_file
               then (case read_text w metadata_file of Inl e \<Rightarrow> Inl e | Inr t \<Rightarrow> loads t)
               else Inr (JObj [])) of
           Inl e \<Rightarrow> (Inl e, w)
         | Inr (JObj metadata) \<Rightarrow>
             write_text w metadata_file
               (dumps 0 (JObj (dict_set (dict_update metadata updates) ''updated_at'' (JStr now))))
         | Inr other \<Rightarrow> (Inl AttributeError, w))"

text \<open>
  Lines 308 and 309 of the \<open>search\<close> command:
  \<^verbatim>\<open>with open(project_dir / "papers_metadata.json", 'w') as f: json.dump(papers, f, indent=2)\<close>.
\<close>

definition save_papers :: "world \<Rightarrow> string \<Rightarrow> paper list \<Rightarrow> unit result" where
  "save_papers w project_dir papers =
     write_text w (path_join project_dir ''papers_metadata.json'') (dumps 0 (papers_json papers))"

text \<open>
  Lines 292 to 309 of the \<open>search\<close> command, what it does with the papers found: with
  no papers it reports that and returns, and nothing is written; otherwise it updates
  the metadata of the project and saves the papers.  An exception ends the command (its
  handler reports it).  The messages to the chat are not modelled.
\<close>

definition search_command_save ::
  "world \<Rightarrow> string \<Rightarrow> paper list \<Rightarrow> string \<Rightarrow> unit result" where
  "search_command_save w project_dir papers now =
     (if papers = [] then (Inr (), w)
      else (case update_metadata w project_dir
                   [(''papers_found'', JNum (int (length papers))),
                    (''status'', JStr ''search_complete'')] now of
              (Inl e, w1) \<Rightarrow> (Inl e, w1)
            | (Inr u, w1) \<Rightarrow> save_papers w1 project_dir papers))"

text \<open>
  Lines 358 to 371 of the \<open>download\<close> command: the two messages about a missing project
  and a missing document, then \<open>json.load\<close>, whose exceptions leave the command.
\<close>

datatype loaded = ProjectNotFound | NoPapersMetadata | Loaded json

definition load_papers :: "world \<Rightarrow> string \<Rightarrow> string \<Rightarrow> error + loaded" where
  "load_papers w base_dir project_name =
     (let project_dir = path_join base_dir project_name
      in if \<not> path_exists w project_dir then Inr ProjectNotFound
         else (let papers_file = path_join project_dir ''papers_metadata.json''
               in if \<not> path_exists w papers_file then Inr NoPapersMetadata
                  else (case read_text w papers_file of
                          Inl e \<Rightarrow> Inl e
                        | Inr t \<Rightarrow> (case loads t of Inl e \<Rightarrow> Inl e | Inr v \<Rightarrow> Inr (Loaded v)))))"

text \<open>
  The body of the loop of the \<open>download\<close> command, lines 385 to 393, on the two counters;
  then the loop.  An exception of \<open>_try_download_paper\<close> leaves the loop.  The progress
  messages to the chat are not modelled.
\<close>

definition download_one :: "world \<Rightarrow> string \<Rightarrow> paper \<Rightarrow> nat \<times> nat \<Rightarrow> (nat \<times> nat) result" where
  "download_one w papers_dir paper counts =
     (case counts of
        (downloaded, failed) \<Rightarrow>
          if truthy_str (doi paper)
          then (case try_download_paper w paper papers_dir of
                  (Inl e, w1) \<Rightarrow> (Inl e, w1)
                | (Inr success, w1) \<Rightarrow>
                    if success then (Inr (downloaded + 1, failed), w1)
                    else (Inr (downloaded, failed + 1), w1))
          else (Inr (downloaded, failed + 1), w))"

fun download_loop :: "world \<Rightarrow> string \<Rightarrow> paper list \<Rightarrow> nat \<times> nat \<Rightarrow> (nat \<times> nat) result" where
  "download_loop w papers_dir [] counts = (Inr counts, w)"
| "download_loop w papers_dir (paper # rest) counts =
     (case download_one w papers_dir paper counts of
        (Inl e, w1) \<Rightarrow> (Inl e, w1)
      | (Inr counts', w1) \<Rightarrow> download_loop w1 papers_dir rest counts')"

section \<open>Relations between the world before and after a call\<close>

text \<open>
  \<open>same_env\<close>: the call has not changed the network, the directories or what the
  operating system permits.  \<open>steady\<close>: no transfer into a file is cut short, neither by
  a response that breaks off while its body is read nor by a write that is refused.
  \<open>written\<close>: the files are as before, or differ by the body of one response with status
  200, or the first chunks of it, stored at the given path.
\<close>

definition same_env :: "world \<Rightarrow> world \<Rightarrow> bool" where
  "same_env w w1 \<longleftrightarrow> net w1 = net w \<and> dirs w1 = dirs w \<and> can_open w1 = can_open w \<and>
     can_mkdir w1 = can_mkdir w \<and> can_write w1 = can_write w \<and> can_read w1 = can_read w"



section \<open>Example inputs\<close>

text \<open>
  An identifier list with three identifiers, and three detail documents for them: one
  with three complete entries, one whose second entry is empty, and one whose second
  entry closes a tag it never opened, which no XML parser accepts.
\<close>

definition esearch_text :: string where
  "esearch_text =
     ''<eSearchResult><IdList><Id>101</Id><Id>102</Id><Id>103</Id></IdList></eSearchResult>''"

definition esearch_tree :: xml where
  "esearch_tree = Element ''eSearchResult'' [] None
     [Element ''IdList'' [] None
        [Element ''Id'' [] (Some ''101'') [], Element ''Id'' [] (Some ''102'') [],
         Element ''Id'' [] (Some ''103'') []]]"

definition entry :: "string \<Rightarrow> string \<Rightarrow> xml" where
  "entry i t = Element ''PubmedArticle'' [] None
     [Element ''PMID'' [] (Some i) [], Element ''ArticleTitle'' [] (Some t) []]"

definition efetch_text :: string where
  "efetch_text = ''<PubmedArticleSet>''
     @ ''<PubmedArticle><PMID>101</PMID><ArticleTitle>Alpha</ArticleTitle></PubmedArticle>''
     @ ''<PubmedArticle><PMID>102</PMID><ArticleTitle>Beta</ArticleTitle></PubmedArticle>''
     @ ''<PubmedArticle><PMID>103</PMID><ArticleTitle>Gamma</ArticleTitle></PubmedArticle>''
     @ ''</PubmedArticleSet>''"

definition efetch_tree :: xml where
  "efetch_tree = Element ''PubmedArticleSet'' [] None
     [entry ''101'' ''Alpha'', entry ''102'' ''Beta'', entry ''103'' ''Gamma'']"

definition efetch_gap_text :: string where
  "efetch_gap_text = ''<PubmedArticleSet>''
     @ ''<PubmedArticle><PMID>101</PMID><ArticleTitle>Alpha</ArticleTitle></PubmedArticle>''
     @ ''<PubmedArticle></PubmedArticle>''
     @ ''<PubmedArticle><PMID>103</PMID><ArticleTitle>Gamma</ArticleTitle></PubmedArticle>''
     @ ''</PubmedArticleSet>''"

definition efetch_gap_tree :: xml where
  "efetch_gap_tree = Element ''PubmedArticleSet'' [] None
     [entry ''101'' ''Alpha'', Element ''PubmedArticle'' [] None [], entry ''103'' ''Gamma'']"

definition efetch_broken_text :: string where
  "efetch_broken_text = ''<PubmedArticleSet>''
     @ ''<PubmedArticle><PMID>101</PMID><ArticleTitle>Alpha</ArticleTitle></PubmedArticle>''
     @ ''<PubmedArticle><PMID>102</PMID><ArticleTitle>Beta</PubmedArticle>''
     @ ''<PubmedArticle><PMID>103</PMID><ArticleTitle>Gamma</ArticleTitle></PubmedArticle>''
     @ ''</PubmedArticleSet>''"

text \<open>
  The values of \<open>ET.fromstring\<close> on these texts: the three well-formed ones give their
  trees, the broken one (like every other text here) raises \<open>ParseError\<close>.
\<close>

definition fromstring_examples :: "string \<Rightarrow> error + xml" where
  "fromstring_examples s =
     (if s = esearch_text then Inr esearch_tree
      else if s = efetch_text then Inr efetch_tree
      else if s = efetch_gap_text then Inr efetch_gap_tree
      else Inl ParseError)"

definition xml_response :: "int \<Rightarrow> string \<Rightarrow> response" where
  "xml_response st body =
     \<lparr>status = st, content_type = Some ''text/xml'', text_result = Inr body,
      json_result = Inl JSONDecodeError, chunks = [body], chunks_error = False\<rparr>"

text \<open>
  An upstream that answers the search for \<open>cancer\<close> with the identifier list and the
  detail request for the three identifiers with a given response.
\<close>

definition upstream :: "response \<Rightarrow> nat \<Rightarrow> string \<Rightarrow> error + response" where
  "upstream detail n url =
     (if url = search_url ''cancer'' 10 then Inr (xml_response 200 esearch_text)
      else if url = fetch_url ''101,102,103'' then Inr detail
      else Inl ClientError)"

definition fresh_world :: "(nat \<Rightarrow> string \<Rightarrow> error + response) \<Rightarrow> world" where
  "fresh_world f = \<lparr>net = f, requests = [], files = Map.empty, dirs = {},
     can_mkdir = (\<lambda>d. True), can_open = (\<lambda>p. True), can_write = (\<lambda>p n. True),
     can_read = (\<lambda>p. True)\<rparr>"

definition found_paper :: "string \<Rightarrow> string \<Rightarrow> paper" where
  "found_paper i t = \<lparr>title = Some t, authors = [], abstract = Some ''No abstract available'',
     doi = None, pmid = Some i, year = Some ''Unknown'',
     pdf_url = Some (''https://www.ncbi.nlm.nih.gov/pmc/articles/PMC'' @ i @ ''/pdf/'')\<rparr>"

definition default_paper :: paper where
  "default_paper = \<lparr>title = Some ''No title'', authors = [],
     abstract = Some ''No abstract available'', doi = None, pmid = None,
     year = Some ''Unknown'', pdf_url = None\<rparr>"

text \<open>
  Papers, responses and worlds for the examples of the download: a paper with a title
  that holds an underscore, papers with both identifiers, with a \<open>pmid\<close> only and with
  none, a PDF response that may break off, a 404 response, an open-access document that
  names a PDF location, and a directory of papers.
\<close>

definition underscore_paper :: paper where
  "underscore_paper = \<lparr>title = Some ''a_b: c-d'', authors = [], abstract = None, doi = None,
     pmid = Some ''7'', year = None, pdf_url = None\<rparr>"

definition oa_paper :: paper where
  "oa_paper = \<lparr>title = Some ''Alpha'', authors = [], abstract = None, doi = Some ''10.1/x'',
     pmid = Some ''101'', year = None, pdf_url = Some (pmc_url ''101'')\<rparr>"

definition pmc_paper :: paper where
  "pmc_paper = \<lparr>title = Some ''Alpha'', authors = [], abstract = None, doi = None,
     pmid = Some ''101'', year = None, pdf_url = Some (pmc_url ''101'')\<rparr>"

definition bare_paper :: paper where
  "bare_paper = \<lparr>title = Some ''Alpha'', authors = [], abstract = None, doi = None,
     pmid = None, year = None, pdf_url = None\<rparr>"

definition pdf_response :: "bool \<Rightarrow> response" where
  "pdf_response breaks = \<lparr>status = 200, content_type = Some ''application/pdf'',
     text_result = Inr ''%PDF-1.4'', json_result = Inl JSONDecodeError,
     chunks = [''%PDF'', ''-1.4''], chunks_error = breaks\<rparr>"

definition not_found :: response where
  "not_found = \<lparr>status = 404, content_type = Some ''text/html'',
     text_result = Inr ''Not Found'', json_result = Inl JSONDecodeError,
     chunks = [''Not Found''], chunks_error = False\<rparr>"

definition oa_document :: json where
  "oa_document = JObj [(''is_oa'', JBool True),
     (''best_oa_location'', JObj [(''url_for_pdf'', JStr ''https://host/a.pdf'')])]"

definition oa_text :: string where
  "oa_text = ''{'' @ [CHR 0x22] @ ''is_oa'' @ [CHR 0x22] @ '': true, '' @ [CHR 0x22]
     @ ''best_oa_location'' @ [CHR 0x22] @ '': {'' @ [CHR 0x22] @ ''url_for_pdf'' @ [CHR 0x22]
     @ '': '' @ [CHR 0x22] @ ''https://host/a.pdf'' @ [CHR 0x22] @ ''}}''"

definition oa_response :: response where
  "oa_response = \<lparr>status = 200, content_type = Some ''application/json; charset=utf-8'',
     text_result = Inr oa_text, json_result = Inr oa_document, chunks = [oa_text],
     chunks_error = False\<rparr>"

definition pdf_sites :: "response \<Rightarrow> nat \<Rightarrow> string \<Rightarrow> error + response" where
  "pdf_sites pmc n url =
     (if url = unpaywall_url ''10.1/x'' then Inr oa_response
      else if url = pmc_url ''101'' then Inr pmc
      else if url = ''https://host/a.pdf'' then Inr not_found
      else Inl ClientError)"

definition papers_world :: "(nat \<Rightarrow> string \<Rightarrow> error + response) \<Rightarrow> world" where
  "papers_world f = \<lparr>net = f, requests = [], files = Map.empty, dirs = {''papers''},
     can_mkdir = (\<lambda>d. False), can_open = (\<lambda>p. True), can_write = (\<lambda>p n. True),
     can_read = (\<lambda>p. True)\<rparr>"

text \<open>
  Two project directories: one that holds a metadata document and the results document
  of an earlier search, and a new one that holds no file.
\<close>

definition project_world :: world where
  "project_world = \<lparr>net = (\<lambda>n url. Inl ClientError), requests = [],
     files = [''research_projects/p1/metadata.json'' \<mapsto>
                Bytes (''{'' @ [CHR 0x22] @ ''status'' @ [CHR 0x22] @ '': '' @ [CHR 0x22]
                       @ ''created'' @ [CHR 0x22] @ ''}''),
              ''research_projects/p1/papers_metadata.json'' \<mapsto>
                Bytes (dumps 0 (papers_json [default_paper]))],
     dirs = {''research_projects'', ''research_projects/p1''},
     can_mkdir = (\<lambda>d. True), can_open = (\<lambda>p. True), can_write = (\<lambda>p n. True),
     can_read = (\<lambda>p. True)\<rparr>"

definition new_project_world :: world where
  "new_project_world = \<lparr>net = (\<lambda>n url. Inl ClientError), requests = [],
     files = Map.empty, dirs = {''research_projects'', ''research_projects/p1''},
     can_mkdir = (\<lambda>d. True), can_open = (\<lambda>p. True), can_write = (\<lambda>p n. True),
     can_read = (\<lambda>p. True)\<rparr>"

section \<open>Properties of the search expression\<close>

lemma range_clause_nonempty: "range_clause a b \<noteq> []"
  by (simp add: range_clause_def)

lemma str_nat_2020: "str_nat 2020 = ''2020''"
  by (simp add: str_nat.simps [of 2020] str_nat.simps [of 202] str_nat.simps [of 20]
      str_nat.simps [of 2] digit_char_def)

lemma str_nat_2024: "str_nat 2024 = ''2024''"
  by (simp add: str_nat.simps [of 2024] str_nat.simps [of 202] str_nat.simps [of 20]
      str_nat.simps [of 2] digit_char_def)

lemma fetch_paper_details_requests:
  "\<exists>more. requests (snd (fetch_paper_details fromstring w pmids)) = requests w @ more"
  by (simp add: fetch_paper_details_def fetch_paper_details_body_def try_except_def
      session_get_def split: sum.splits)

lemma snd_try_except: "snd (try_except r handler) = snd r"
  by (simp add: try_except_def split: prod.splits sum.splits)

lemma search_papers_first_request:
  "\<exists>more. requests (snd (search_papers fromstring w keywords start_year end_year max_results))
     = requests w @ search_url (search_term keywords start_year end_year) max_results # more"
proof -
  let ?w1 = "w\<lparr>requests := requests w
               @ [search_url (search_term keywords start_year end_year) max_results]\<rparr>"
  have "\<exists>more. requests (snd (fetch_paper_details fromstring ?w1 pmids)) = requests ?w1 @ more"
    for pmids by (rule fetch_paper_details_requests)
  then have "\<exists>more. requests (snd (fetch_paper_details fromstring ?w1 pmids))
      = requests w @ search_url (search_term keywords start_year end_year) max_results # more"
    for pmids by simp
  then show ?thesis
    unfolding search_papers_def snd_try_except
    by (simp add: search_papers_body_def session_get_def Let_def split: sum.splits)
qed

text \<open>
  The test of line 71 is one of truthiness, so a bound of \<open>0\<close> would count as absent.
  No year is \<open>0\<close>: the command passes only years from 1900 to 2030 (line 259).
\<close>

lemma search_term_zero_bound:
  "search_term ''cancer'' (Some 0) (Some 2020) = ''cancer''"
  by (simp add: search_term_def truthy_int_def)

text \<open>
  C2.  For bounds that are years (none of them \<open>0\<close>), the search expression is the one
  the specification words: it is the keywords followed by the range clause, joined by
  AND, if and only if both bounds are given, and the bare keywords as soon as one bound
  is missing.  The order of the two bounds plays no role, so inverted and equal bounds
  get the clause like any other pair.  This expression is what the first request of a
  search carries.
\<close>

theorem search_term_range_clause:
  assumes "start_year \<noteq> Some 0" and "end_year \<noteq> Some 0"
  shows "search_term keywords start_year end_year
           = spec_search_term keywords start_year end_year \<and>
         ((\<exists>a b. start_year = Some a \<and> end_year = Some b \<and>
                 search_term keywords start_year end_year = keywords @ range_clause a b)
            \<longleftrightarrow> start_year \<noteq> None \<and> end_year \<noteq> None) \<and>
         (search_term keywords start_year end_year \<noteq> keywords
            \<longleftrightarrow> start_year \<noteq> None \<and> end_year \<noteq> None) \<and>
         (start_year = None \<or> end_year = None \<longrightarrow>
            search_term keywords start_year end_year = keywords) \<and>
         (\<exists>more. requests (snd (search_papers fromstring w keywords start_year end_year max_results))
            = requests w @ search_url (search_term keywords start_year end_year) max_results # more)"
proof -
  have "search_term keywords start_year end_year
           = spec_search_term keywords start_year end_year \<and>
         ((\<exists>a b. start_year = Some a \<and> end_year = Some b \<and>
                 search_term keywords start_year end_year = keywords @ range_clause a b)
            \<longleftrightarrow> start_year \<noteq> None \<and> end_year \<noteq> None) \<and>
         (search_term keywords start_year end_year \<noteq> keywords
            \<longleftrightarrow> start_year \<noteq> None \<and> end_year \<noteq> None) \<and>
         (start_year = None \<or> end_year = None \<longrightarrow>
            search_term keywords start_year end_year = keywords)"
    using assms
    by (cases start_year; cases end_year)
       (auto simp: search_term_def spec_search_term_def truthy_int_def range_clause_nonempty)
  with search_papers_first_request show ?thesis by blast
qed

theorem search_term_range_clause_witness:
  "search_term ''cancer'' (Some 2024) (Some 2020) = ''cancer AND 2024[PDAT]:2020[PDAT]'' \<and>
   search_term ''cancer'' (Some 2020) (Some 2020) = ''cancer AND 2020[PDAT]:2020[PDAT]'' \<and>
   search_term ''cancer'' (Some 2020) None = ''cancer'' \<and>
   search_term ''cancer'' None (Some 2020) = ''cancer'' \<and>
   search_term ''cancer'' None None = ''cancer''"
proof -
  have n: "Some (2024 :: int) \<noteq> Some 0" "Some (2020 :: int) \<noteq> Some 0"
    "(None :: int option) \<noteq> Some 0"
    by simp_all
  show ?thesis
    using search_term_range_clause [OF n(1) n(2), of "''cancer''"]
      search_term_range_clause [OF n(2) n(2), of "''cancer''"]
      search_term_range_clause [OF n(2) n(3), of "''cancer''"]
      search_term_range_clause [OF n(3) n(2), of "''cancer''"]
      search_term_range_clause [OF n(3) n(3), of "''cancer''"]
    by (simp add: spec_search_term_def range_clause_def str_int_def str_nat_2020 str_nat_2024)
qed

section \<open>Properties of the search\<close>

lemma str_nat_digit: "n < 10 \<Longrightarrow> str_nat n = [digit_char n]"
  by (simp add: str_nat.simps [of n])

lemma str_nat_10: "str_nat 10 = ''10''"
  by (simp add: str_nat.simps [of 10] str_nat_digit digit_char_def)

lemma search_url_cancer:
  "search_url ''cancer'' 10 = ''https://eutils.ncbi.nlm.nih.gov/entrez/eutils/esearch.fcgi?''
     @ ''db=pubmed&term=cancer&retmax=10&retmode=xml&sort=relevance''"
  by (simp add: search_url_def BASE_URL_def urlencode_def quote_plus_def quote_plus_char_def
      always_safe_def str_int_def str_nat_10)

lemma fetch_url_three:
  "fetch_url ''101,102,103'' = ''https://eutils.ncbi.nlm.nih.gov/entrez/eutils/efetch.fcgi?''
     @ ''db=pubmed&id=101%2C102%2C103&retmode=xml&rettype=abstract''"
  by (simp add: fetch_url_def BASE_URL_def urlencode_def quote_plus_def quote_plus_char_def
      always_safe_def percent_def utf8_def hex_digit_def)

lemma extract_paper_info_Some: "\<exists>paper_info. extract_paper_info article = Some paper_info"
  by (simp add: extract_paper_info_def extract_paper_info_body_def Let_def)

lemma collect_papers_append:
  "collect_papers articles papers = papers @ List.map_filter extract_paper_info articles"
  by (induction articles arbitrary: papers)
     (simp_all add: List.map_filter_simps split: option.splits)

lemma collect_papers_all:
  "map Some (collect_papers articles []) = map extract_paper_info articles"
proof (induction articles)
  case Nil
  show ?case by simp
next
  case (Cons a articles)
  obtain p where "extract_paper_info a = Some p"
    using extract_paper_info_Some by blast
  with Cons show ?case
    by (simp add: collect_papers_append List.map_filter_simps)
qed

lemma fetch_paper_details_never_raises:
  "\<exists>papers. fst (fetch_paper_details fromstring w pmids) = Inr papers"
  by (simp add: fetch_paper_details_def try_except_def split: prod.splits sum.splits)

lemma search_papers_never_raises:
  "\<exists>papers. fst (search_papers fromstring w keywords start_year end_year max_results) = Inr papers"
  by (simp add: search_papers_def try_except_def split: prod.splits sum.splits)

lemma extract_entry: "i \<noteq> [] \<Longrightarrow> extract_paper_info (entry i t) = Some (found_paper i t)"
  by (simp add: extract_paper_info_def extract_paper_info_body_def entry_def find_desc_def
      findall_desc_def descendants_def first_match_def find_desc_attr_def find_desc_child_def
      truthy_str_def fmt_def found_paper_def Let_def)

lemma extract_empty_entry:
  "extract_paper_info (Element ''PubmedArticle'' [] None []) = Some default_paper"
  by (simp add: extract_paper_info_def extract_paper_info_body_def find_desc_def
      findall_desc_def descendants_def first_match_def find_desc_attr_def find_desc_child_def
      truthy_str_def default_paper_def)

lemma ids_of_esearch_tree:
  "map elem_text (findall_desc ''Id'' esearch_tree) = [Some ''101'', Some ''102'', Some ''103'']"
  by (simp add: esearch_tree_def findall_desc_def descendants_def)

lemma entries_of_efetch_tree:
  "findall_desc ''PubmedArticle'' efetch_tree
     = [entry ''101'' ''Alpha'', entry ''102'' ''Beta'', entry ''103'' ''Gamma'']"
  by (simp add: efetch_tree_def findall_desc_def descendants_def entry_def)

lemma entries_of_efetch_gap_tree:
  "findall_desc ''PubmedArticle'' efetch_gap_tree
     = [entry ''101'' ''Alpha'', Element ''PubmedArticle'' [] None [], entry ''103'' ''Gamma'']"
  by (simp add: efetch_gap_tree_def findall_desc_def descendants_def entry_def)

lemma those_map_Some: "those (map Some xs) = Some xs"
  by (induction xs) simp_all

lemma try_except_fetch:
  "try_except (fetch_paper_details fromstring w pmids) handler = fetch_paper_details fromstring w pmids"
  by (simp add: fetch_paper_details_def try_except_def split: prod.splits sum.splits)

lemma search_papers_phase2:
  assumes "net w (length (requests w))
             (search_url (search_term keywords start_year end_year) max_results) = Inr r1"
    and "status r1 = 200" and "text_result r1 = Inr t1" and "fromstring t1 = Inr root1"
    and "map elem_text (findall_desc ''Id'' root1) = pmids" and "pmids \<noteq> []"
  shows "search_papers fromstring w keywords start_year end_year max_results =
         fetch_paper_details fromstring
           (w\<lparr>requests := requests w
                @ [search_url (search_term keywords start_year end_year) max_results]\<rparr>) pmids"
  using assms
  by (simp add: search_papers_def search_papers_body_def session_get_def Let_def try_except_fetch)

lemma fetch_paper_details_parsed:
  assumes "those pmids = Some ids"
    and "net w (length (requests w)) (fetch_url (join '','' ids)) = Inr r2"
    and "text_result r2 = Inr t2"
  shows "fetch_paper_details fromstring w pmids =
     (case fromstring t2 of
        Inl e \<Rightarrow> (Inr [], w\<lparr>requests := requests w @ [fetch_url (join '','' ids)]\<rparr>)
      | Inr root \<Rightarrow> (Inr (collect_papers (findall_desc ''PubmedArticle'' root) []),
                    w\<lparr>requests := requests w @ [fetch_url (join '','' ids)]\<rparr>))"
  using assms
  by (simp add: fetch_paper_details_def fetch_paper_details_body_def join_items_def
      session_get_def try_except_def split: sum.splits)

lemma fromstring_esearch: "fromstring_examples esearch_text = Inr esearch_tree"
  by (simp add: fromstring_examples_def)

lemma fromstring_efetch: "fromstring_examples efetch_text = Inr efetch_tree"
  by (simp add: fromstring_examples_def esearch_text_def efetch_text_def)

lemma fromstring_efetch_gap: "fromstring_examples efetch_gap_text = Inr efetch_gap_tree"
  by (simp add: fromstring_examples_def esearch_text_def efetch_text_def efetch_gap_text_def)

lemma fromstring_efetch_broken: "fromstring_examples efetch_broken_text = Inl ParseError"
  by (simp add: fromstring_examples_def esearch_text_def efetch_text_def efetch_gap_text_def
      efetch_broken_text_def)

lemma upstream_search: "upstream detail n (search_url ''cancer'' 10) = Inr (xml_response 200 esearch_text)"
  by (simp add: upstream_def)

lemma upstream_fetch: "upstream detail n (fetch_url ''101,102,103'') = Inr detail"
  by (simp add: upstream_def search_url_cancer fetch_url_three)

lemma search_example:
  "search_papers fromstring_examples (fresh_world (upstream detail)) ''cancer'' None None 10 =
   fetch_paper_details fromstring_examples
     ((fresh_world (upstream detail))\<lparr>requests := [search_url ''cancer'' 10]\<rparr>)
     [Some ''101'', Some ''102'', Some ''103'']"
  using search_papers_phase2 [of "fresh_world (upstream detail)" "''cancer''" None None 10
      "xml_response 200 esearch_text" esearch_text fromstring_examples esearch_tree
      "[Some ''101'', Some ''102'', Some ''103'']"]
  by (simp add: fresh_world_def upstream_search search_term_def truthy_int_def xml_response_def
      fromstring_esearch ids_of_esearch_tree)

lemma fetch_example:
  "fst (fetch_paper_details fromstring_examples
     ((fresh_world (upstream (xml_response st body)))\<lparr>requests := [search_url ''cancer'' 10]\<rparr>)
     [Some ''101'', Some ''102'', Some ''103'']) =
   (case fromstring_examples body of Inl e \<Rightarrow> Inr []
    | Inr root \<Rightarrow> Inr (collect_papers (findall_desc ''PubmedArticle'' root) []))"
  using fetch_paper_details_parsed [of "[Some ''101'', Some ''102'', Some ''103'']"
      "[''101'', ''102'', ''103'']"
      "(fresh_world (upstream (xml_response st body)))\<lparr>requests := [search_url ''cancer'' 10]\<rparr>"
      "xml_response st body" body fromstring_examples]
  by (simp add: fresh_world_def upstream_fetch xml_response_def split: sum.splits)

lemma search_papers_search_failure:
  assumes "case net w (length (requests w))
                  (search_url (search_term keywords start_year end_year) max_results) of
             Inl e \<Rightarrow> True
           | Inr r \<Rightarrow> status r \<noteq> 200 \<or>
               (case text_result r of Inl e \<Rightarrow> True | Inr t \<Rightarrow> isl (fromstring t))"
  shows "fst (search_papers fromstring w keywords start_year end_year max_results) = Inr []"
  using assms
  by (auto simp: search_papers_def search_papers_body_def session_get_def try_except_def
      split: sum.splits)

lemma fetch_paper_details_failure:
  assumes "case join_items '','' pmids of
             Inl e \<Rightarrow> True
           | Inr ids \<Rightarrow>
               (case net w (length (requests w)) (fetch_url ids) of
                  Inl e \<Rightarrow> True
                | Inr r \<Rightarrow> (case text_result r of Inl e \<Rightarrow> True | Inr t \<Rightarrow> isl (fromstring t)))"
  shows "fst (fetch_paper_details fromstring w pmids) = Inr []"
  using assms
  by (auto simp: fetch_paper_details_def fetch_paper_details_body_def session_get_def
      try_except_def split: sum.splits)

text \<open>
  C1.  The search never raises, and a failure of the identifier request (connection
  error, status other than 200, unreadable or malformed body) gives the empty list, as
  do a connection error and a malformed body of the detail request: the lemmas
  \<open>search_papers_never_raises\<close>, \<open>search_papers_search_failure\<close> and
  \<open>fetch_paper_details_failure\<close>.  The status of the detail response, however, is never
  read: when the detail request is answered with status 500 and a body that holds three
  entries, the search returns three records where the claim wants none.
\<close>

theorem search_papers_detail_status_500:
  "map_sum id status (net (fresh_world (upstream (xml_response 500 efetch_text))) 1
      (fetch_url ''101,102,103'')) = Inr 500 \<and>
   fst (search_papers fromstring_examples (fresh_world (upstream (xml_response 500 efetch_text)))
          ''cancer'' None None 10)
     = Inr [found_paper ''101'' ''Alpha'', found_paper ''102'' ''Beta'',
            found_paper ''103'' ''Gamma'']"
  by (simp add: search_example fetch_example fromstring_efetch entries_of_efetch_tree
      collect_papers_append List.map_filter_simps extract_entry)
     (simp add: fresh_world_def upstream_fetch xml_response_def)

text \<open>
  C6, as stated, fails both ways a second entry can be malformed.  When its markup is
  broken, \<open>ET.fromstring\<close> rejects the whole document and the search returns nothing,
  not the two sound entries.  When it is an empty entry, it is not skipped: the search
  returns three records, the second made of the defaults.
\<close>

theorem search_papers_malformed_entry_counterexample:
  "fst (search_papers fromstring_examples
          (fresh_world (upstream (xml_response 200 efetch_broken_text))) ''cancer'' None None 10)
     = Inr [] \<and>
   fst (search_papers fromstring_examples
          (fresh_world (upstream (xml_response 200 efetch_gap_text))) ''cancer'' None None 10)
     = Inr [found_paper ''101'' ''Alpha'', default_paper, found_paper ''103'' ''Gamma'']"
  by (simp add: search_example fetch_example fromstring_efetch_gap fromstring_efetch_broken
      entries_of_efetch_gap_tree collect_papers_append List.map_filter_simps extract_entry
      extract_empty_entry)

text \<open>
  C6, amended: when the identifier request has given a non-empty list of identifiers and
  the detail request is answered with a readable body, then, if the body parses as XML,
  the search returns exactly one record per \<open>PubmedArticle\<close> entry, in the order of the
  response (no entry is skipped, an entry's missing fields take their defaults); and if
  the body does not parse as a whole, the search returns the empty list.
\<close>

theorem search_papers_one_record_per_entry:
  assumes "net w (length (requests w))
             (search_url (search_term keywords start_year end_year) max_results) = Inr r1"
    and "status r1 = 200" and "text_result r1 = Inr t1" and "fromstring t1 = Inr root1"
    and "map elem_text (findall_desc ''Id'' root1) = map Some ids" and "ids \<noteq> []"
    and "net w (Suc (length (requests w))) (fetch_url (join '','' ids)) = Inr r2"
    and "text_result r2 = Inr t2"
  shows "(\<forall>root. fromstring t2 = Inr root \<longrightarrow>
            (\<exists>papers. fst (search_papers fromstring w keywords start_year end_year max_results)
                        = Inr papers \<and>
               map Some papers = map extract_paper_info (findall_desc ''PubmedArticle'' root))) \<and>
         (\<forall>e. fromstring t2 = Inl e \<longrightarrow>
            fst (search_papers fromstring w keywords start_year end_year max_results) = Inr [])"
proof -
  let ?w1 = "w\<lparr>requests := requests w
                @ [search_url (search_term keywords start_year end_year) max_results]\<rparr>"
  have s: "search_papers fromstring w keywords start_year end_year max_results =
           fetch_paper_details fromstring ?w1 (map Some ids)"
    using assms(1-6) by (intro search_papers_phase2) auto
  have n: "net ?w1 (length (requests ?w1)) (fetch_url (join '','' ids)) = Inr r2"
    using assms(7) by simp
  have f: "fetch_paper_details fromstring ?w1 (map Some ids) =
     (case fromstring t2 of
        Inl e \<Rightarrow> (Inr [], ?w1\<lparr>requests := requests ?w1 @ [fetch_url (join '','' ids)]\<rparr>)
      | Inr root \<Rightarrow> (Inr (collect_papers (findall_desc ''PubmedArticle'' root) []),
                    ?w1\<lparr>requests := requests ?w1 @ [fetch_url (join '','' ids)]\<rparr>))"
    by (rule fetch_paper_details_parsed [OF those_map_Some n assms(8)])
  show ?thesis
    unfolding s f by (auto simp: collect_papers_all)
qed

theorem search_papers_one_record_per_entry_witness:
  "fst (search_papers fromstring_examples (fresh_world (upstream (xml_response 200 efetch_text)))
          ''cancer'' None None 10)
     = Inr [found_paper ''101'' ''Alpha'', found_paper ''102'' ''Beta'',
            found_paper ''103'' ''Gamma''] \<and>
   fst (search_papers fromstring_examples
          (fresh_world (upstream (xml_response 200 efetch_broken_text))) ''cancer'' None None 10)
     = Inr []"
proof -
  have t: "search_term ''cancer'' None None = ''cancer''"
    by (simp add: search_term_def truthy_int_def)
  have j: "join '','' [''101'', ''102'', ''103''] = ''101,102,103''"
    by simp
  have a: "\<exists>papers. fst (search_papers fromstring_examples
               (fresh_world (upstream (xml_response 200 efetch_text))) ''cancer'' None None 10)
             = Inr papers \<and>
           map Some papers = map extract_paper_info (findall_desc ''PubmedArticle'' efetch_tree)"
    using search_papers_one_record_per_entry
      [of "fresh_world (upstream (xml_response 200 efetch_text))" "''cancer''" None None 10
        "xml_response 200 esearch_text" esearch_text fromstring_examples esearch_tree
        "[''101'', ''102'', ''103'']" "xml_response 200 efetch_text" efetch_text]
    unfolding t j
    by (simp add: fresh_world_def upstream_search upstream_fetch xml_response_def
        fromstring_esearch fromstring_efetch ids_of_esearch_tree)
  have b: "fst (search_papers fromstring_examples
               (fresh_world (upstream (xml_response 200 efetch_broken_text)))
               ''cancer'' None None 10) = Inr []"
    using search_papers_one_record_per_entry
      [of "fresh_world (upstream (xml_response 200 efetch_broken_text))" "''cancer''" None None 10
        "xml_response 200 esearch_text" esearch_text fromstring_examples esearch_tree
        "[''101'', ''102'', ''103'']" "xml_response 200 efetch_broken_text" efetch_broken_text]
    unfolding t j
    by (simp add: fresh_world_def upstream_search upstream_fetch xml_response_def
        fromstring_esearch fromstring_efetch_broken ids_of_esearch_tree)
  from a show ?thesis
    by (auto simp: b entries_of_efetch_tree extract_entry)
qed


section \<open>Properties of the download\<close>

lemma re_sub_delete_filter: "re_sub_delete matches s = filter (\<lambda>c. \<not> matches c) s"
  by (induction s) simp_all

lemma same_env_refl: "same_env w w"
  by (simp add: same_env_def)

lemma same_env_trans: "same_env w w1 \<Longrightarrow> same_env w1 w2 \<Longrightarrow> same_env w w2"
  by (simp add: same_env_def)




lemma write_loop_env: "write_loop w filepath data cs = (res, w1) \<Longrightarrow> same_env w w1"
proof (induction cs arbitrary: w data)
  case Nil
  then show ?case by (simp add: same_env_def)
next
  case (Cons c cs)
  show ?case
  proof (cases "can_write w filepath (length data + length c)")
    case True
    with Cons.prems have "write_loop (w\<lparr>files := (files w)(filepath \<mapsto> Bytes (data @ c))\<rparr>)
        filepath (data @ c) cs = (res, w1)" by simp
    from Cons.IH [OF this] show ?thesis by (simp add: same_env_def)
  next
    case False
    with Cons.prems show ?thesis by (simp add: same_env_def)
  qed
qed

lemma write_loop_requests:
  "write_loop w filepath data cs = (res, w1) \<Longrightarrow> requests w1 = requests w"
proof (induction cs arbitrary: w data)
  case Nil
  then show ?case by simp
next
  case (Cons c cs)
  show ?case
  proof (cases "can_write w filepath (length data + length c)")
    case True
    with Cons.prems have "write_loop (w\<lparr>files := (files w)(filepath \<mapsto> Bytes (data @ c))\<rparr>)
        filepath (data @ c) cs = (res, w1)" by simp
    from Cons.IH [OF this] show ?thesis by simp
  next
    case False
    with Cons.prems show ?thesis by simp
  qed
qed

lemma write_loop_files:
  "write_loop w filepath data cs = (res, w1) \<Longrightarrow> files w filepath = Some (Bytes data) \<Longrightarrow>
     \<exists>k. files w1 = (files w)(filepath \<mapsto> Bytes (data @ concat (take k cs)))"
proof (induction cs arbitrary: w data)
  case Nil
  then have "files w1 = (files w)(filepath \<mapsto> Bytes (data @ concat (take 0 [])))"
    by (auto simp: fun_upd_idem_iff)
  then show ?case by blast
next
  case (Cons c cs)
  show ?case
  proof (cases "can_write w filepath (length data + length c)")
    case True
    let ?w = "w\<lparr>files := (files w)(filepath \<mapsto> Bytes (data @ c))\<rparr>"
    from True Cons.prems have l: "write_loop ?w filepath (data @ c) cs = (res, w1)" by simp
    have f: "files ?w filepath = Some (Bytes (data @ c))" by simp
    from Cons.IH [OF l f] obtain k where
      "files w1 = (files ?w)(filepath \<mapsto> Bytes ((data @ c) @ concat (take k cs)))" by blast
    then have "files w1 = (files w)(filepath \<mapsto> Bytes (data @ concat (take (Suc k) (c # cs))))"
      by simp
    then show ?thesis by blast
  next
    case False
    with Cons.prems have "files w1 = (files w)(filepath \<mapsto> Bytes (data @ concat (take 0 (c # cs))))"
      by (auto simp: fun_upd_idem_iff)
    then show ?thesis by blast
  qed
qed

lemma write_loop_steady:
  "\<forall>n. can_write w filepath n \<Longrightarrow> fst (write_loop w filepath data cs) = Inr ()"
proof (induction cs arbitrary: w data)
  case Nil
  then show ?case by simp
next
  case (Cons c cs)
  then show ?case by simp
qed

lemma write_chunks_env: "write_chunks w filepath r = (res, w1) \<Longrightarrow> same_env w w1"
  by (auto simp: write_chunks_def same_env_refl split: if_splits prod.splits sum.splits
      dest!: write_loop_env) (simp_all add: same_env_def)

lemma write_chunks_requests: "write_chunks w filepath r = (res, w1) \<Longrightarrow> requests w1 = requests w"
  by (auto simp: write_chunks_def split: if_splits prod.splits sum.splits
      dest!: write_loop_requests)

lemma write_chunks_files_open:
  assumes "write_chunks w filepath r = (res, w1)" and "can_open w filepath"
  shows "\<exists>k. files w1 = (files w)(filepath \<mapsto> Bytes (concat (take k (chunks r))))"
proof -
  let ?w = "w\<lparr>files := (files w)(filepath \<mapsto> Bytes [])\<rparr>"
  obtain x w' where l: "write_loop ?w filepath [] (chunks r) = (x, w')"
    by (cases "write_loop ?w filepath [] (chunks r)")
  have f: "files ?w filepath = Some (Bytes [])" by simp
  from write_loop_files [OF l f] obtain k where
    "files w' = (files ?w)(filepath \<mapsto> Bytes ([] @ concat (take k (chunks r))))" by blast
  moreover from assms l have "w1 = w'"
    by (auto simp: write_chunks_def split: sum.splits if_splits)
  ultimately have "files w1 = (files w)(filepath \<mapsto> Bytes (concat (take k (chunks r))))"
    by simp
  then show ?thesis by blast
qed



lemma write_chunks_success:
  assumes "write_chunks w filepath r = (Inr u, w1)"
  shows "filepath \<in> dom (files w1)"
proof -
  have "can_open w filepath" using assms by (auto simp: write_chunks_def split: if_splits)
  from write_chunks_files_open [OF assms this] show ?thesis by auto
qed


lemma download_pdf_direct_cases:
  assumes "download_pdf_direct w url filepath = (res, w1)"
  obtains (idle) "w1 = w" and "res = Inr False"
  | (refused) u where "w1 = w\<lparr>requests := requests w @ [u]\<rparr>" and "res = Inr False"
  | (body) u r x where "net w (length (requests w)) u = Inr r" and "status r = 200"
      and "write_chunks (w\<lparr>requests := requests w @ [u]\<rparr>) filepath r = (x, w1)"
      and "res = Inr (x = Inr ())"
  using assms that
  by (auto simp: download_pdf_direct_def download_pdf_direct_body_def try_except_def
      session_get_def split: json.splits sum.splits if_splits prod.splits)

lemma download_pdf_direct_env:
  assumes "download_pdf_direct w url filepath = (res, w1)"
  shows "same_env w w1"
  using assms
proof (cases rule: download_pdf_direct_cases)
  case (body u r x)
  from write_chunks_env [OF body(3)] show ?thesis by (simp add: same_env_def)
qed (simp_all add: same_env_def)

lemma download_pdf_direct_requests:
  assumes "download_pdf_direct w url filepath = (res, w1)"
  shows "\<exists>more. requests w1 = requests w @ more"
  using assms
proof (cases rule: download_pdf_direct_cases)
  case (body u r x)
  from write_chunks_requests [OF body(3)] show ?thesis by simp
qed simp_all

lemma download_pdf_direct_returns:
  "\<exists>b. fst (download_pdf_direct w url filepath) = Inr b"
  by (cases "download_pdf_direct w url filepath")
     (auto elim: download_pdf_direct_cases)

lemma download_pdf_direct_success:
  assumes "download_pdf_direct w url filepath = (Inr True, w1)"
  shows "filepath \<in> dom (files w1)"
  using assms
proof (cases rule: download_pdf_direct_cases)
  case (body u r x)
  then have "write_chunks (w\<lparr>requests := requests w @ [u]\<rparr>) filepath r = (Inr (), w1)"
    by simp
  then show ?thesis by (rule write_chunks_success)
qed simp_all




lemma download_pdf_direct_not_Inl: "download_pdf_direct w url filepath \<noteq> (Inl e, w1)"
  using download_pdf_direct_returns [of w url filepath] by auto

lemma try_url_cases:
  assumes "try_url w filepath url = (res, w1)"
  obtains (skip) "w1 = w\<lparr>requests := requests w @ [url]\<rparr>" and "res \<noteq> Inr (Some True)"
  | (pdf) r x where "net w (length (requests w)) url = Inr r" and "status r = 200"
      and "write_chunks (w\<lparr>requests := requests w @ [url]\<rparr>) filepath r = (x, w1)"
      and "res = (case x of Inl e \<Rightarrow> Inl e | Inr u \<Rightarrow> Inr (Some True))"
  | (direct) pdf_url' b where
      "download_pdf_direct (w\<lparr>requests := requests w @ [url]\<rparr>) pdf_url' filepath = (Inr b, w1)"
      and "res = Inr (Some b)"
  using assms that
  by (auto simp: try_url_def session_get_def Let_def download_pdf_direct_not_Inl
      split: sum.splits if_splits prod.splits)

lemma try_url_env:
  assumes "try_url w filepath url = (res, w1)"
  shows "same_env w w1"
  using assms
proof (cases rule: try_url_cases)
  case skip
  then show ?thesis by (simp add: same_env_def)
next
  case (pdf r x)
  from write_chunks_env [OF pdf(3)] show ?thesis by (simp add: same_env_def)
next
  case (direct pdf_url' b)
  from download_pdf_direct_env [OF direct(1)] show ?thesis by (simp add: same_env_def)
qed

lemma try_url_requests:
  assumes "try_url w filepath url = (res, w1)"
  shows "\<exists>more. requests w1 = requests w @ url # more"
  using assms
proof (cases rule: try_url_cases)
  case skip
  then show ?thesis by simp
next
  case (pdf r x)
  from write_chunks_requests [OF pdf(3)] show ?thesis by simp
next
  case (direct pdf_url' b)
  from download_pdf_direct_requests [OF direct(1)] show ?thesis by auto
qed

lemma try_url_success:
  assumes "try_url w filepath url = (Inr (Some True), w1)"
  shows "filepath \<in> dom (files w1)"
  using assms
proof (cases rule: try_url_cases)
  case skip
  then show ?thesis by simp
next
  case (pdf r x)
  then obtain u where "x = Inr u" by (cases x) auto
  with pdf(3) show ?thesis by (auto dest: write_chunks_success)
next
  case (direct pdf_url' b)
  then show ?thesis by (auto dest: download_pdf_direct_success)
qed




lemma try_urls_env: "try_urls w filepath urls = (b, w1) \<Longrightarrow> same_env w w1"
proof (induction urls arbitrary: w)
  case Nil
  then show ?case by (simp add: same_env_refl)
next
  case (Cons url urls)
  obtain res w' where t: "try_url w filepath url = (res, w')"
    by (cases "try_url w filepath url")
  have e: "same_env w w'" by (rule try_url_env [OF t])
  show ?case
  proof (cases "\<exists>b'. res = Inr (Some b')")
    case True
    with Cons.prems t e show ?thesis by auto
  next
    case False
    with Cons.prems t have "try_urls w' filepath urls = (b, w1)"
      by (auto split: sum.splits option.splits)
    from Cons.IH [OF this] e show ?thesis by (rule same_env_trans [rotated])
  qed
qed

lemma try_urls_success: "try_urls w filepath urls = (True, w1) \<Longrightarrow> filepath \<in> dom (files w1)"
proof (induction urls arbitrary: w)
  case Nil
  then show ?case by simp
next
  case (Cons url urls)
  obtain res w' where t: "try_url w filepath url = (res, w')"
    by (cases "try_url w filepath url")
  show ?case
  proof (cases "\<exists>b'. res = Inr (Some b')")
    case True
    with Cons.prems t have "try_url w filepath url = (Inr (Some True), w1)" by auto
    then show ?thesis by (rule try_url_success)
  next
    case False
    with Cons.prems t have "try_urls w' filepath urls = (True, w1)"
      by (auto split: sum.splits option.splits)
    then show ?thesis by (rule Cons.IH)
  qed
qed



lemma try_urls_requests:
  "try_urls w filepath urls = (b, w1) \<Longrightarrow>
     \<exists>more. requests w1 = requests w @ more \<and> (urls \<noteq> [] \<longrightarrow> more \<noteq> [] \<and> hd more = hd urls)"
proof (induction urls arbitrary: w)
  case Nil
  then show ?case by simp
next
  case (Cons url urls)
  obtain res w' where t: "try_url w filepath url = (res, w')"
    by (cases "try_url w filepath url")
  from try_url_requests [OF t] obtain m where m: "requests w' = requests w @ url # m" by blast
  show ?case
  proof (cases "\<exists>b'. res = Inr (Some b')")
    case True
    with Cons.prems t m show ?thesis by auto
  next
    case False
    with Cons.prems t have "try_urls w' filepath urls = (b, w1)"
      by (auto split: sum.splits option.splits)
    from Cons.IH [OF this] m show ?thesis by auto
  qed
qed

lemma target_filename_underscore: "target_filename underscore_paper = Inr ''7_a_b c-d.pdf''"
  by (simp add: target_filename_def underscore_paper_def unsafe_char_def is_word_def
      is_letter_def is_digit_def is_space_def truthy_str_def fmt_def)

lemma target_filename_alpha:
  "title p = Some ''Alpha'' \<Longrightarrow> pmid p = Some ''101'' \<Longrightarrow> target_filename p = Inr ''101_Alpha.pdf''"
  by (simp add: target_filename_def unsafe_char_def is_word_def
      is_letter_def is_digit_def is_space_def truthy_str_def fmt_def)

lemma urls_examples:
  "unpaywall_url ''10.1/x'' = ''https://api.unpaywall.org/v2/10.1/x?email=research@example.com''"
  "pmc_url ''101'' = ''https://www.ncbi.nlm.nih.gov/pmc/articles/PMC101/pdf/''"
  by (simp_all add: unpaywall_url_def pmc_url_def)

lemma pdf_sites_simps:
  "pdf_sites pmc n (unpaywall_url ''10.1/x'') = Inr oa_response"
  "pdf_sites pmc n (pmc_url ''101'') = Inr pmc"
  "pdf_sites pmc n ''https://host/a.pdf'' = Inr not_found"
  by (simp_all add: pdf_sites_def urls_examples)

lemma contains_pdf: "contains ''application/pdf'' ''application/pdf''"
  "\<not> contains ''application/pdf'' ''application/json; charset=utf-8''"
  "contains ''application/json'' ''application/json; charset=utf-8''"
  by simp_all

lemma try_url_falls_through:
  "net w (length (requests w)) url = Inl e \<Longrightarrow>
     try_url w filepath url = (Inl e, w\<lparr>requests := requests w @ [url]\<rparr>)"
  "net w (length (requests w)) url = Inr r \<Longrightarrow> status r \<noteq> 200 \<Longrightarrow>
     try_url w filepath url = (Inr None, w\<lparr>requests := requests w @ [url]\<rparr>)"
  "net w (length (requests w)) url = Inr r \<Longrightarrow> status r = 200 \<Longrightarrow>
   \<not> contains ''application/pdf'' (case content_type r of None \<Rightarrow> [] | Some c \<Rightarrow> c) \<Longrightarrow>
   \<not> contains ''application/json'' (case content_type r of None \<Rightarrow> [] | Some c \<Rightarrow> c) \<Longrightarrow>
     try_url w filepath url = (Inr None, w\<lparr>requests := requests w @ [url]\<rparr>)"
  by (simp_all add: try_url_def session_get_def)

lemma try_urls_continues:
  "fst (try_url w filepath url) \<noteq> Inr (Some True) \<Longrightarrow> fst (try_url w filepath url) \<noteq> Inr (Some False)
   \<Longrightarrow> try_urls w filepath (url # urls) = try_urls (snd (try_url w filepath url)) filepath urls"
  by (cases "try_url w filepath url") (auto split: sum.splits option.splits)

text \<open>
  C3.  The candidates are tried in the order the claim gives, and a candidate that fails
  by a status other than 200, by an unexpected content type or by an exception lets the
  loop go on (\<open>try_url_falls_through\<close>, \<open>try_urls_continues\<close>).  But when the
  open-access lookup names a PDF location, the code returns
  whatever the download from that location gives: here the location answers 404, the
  function returns \<open>False\<close> after two requests, and the repository URL, which would
  have served the PDF, is never requested.
\<close>
theorem try_download_paper_early_return:
  "try_download_paper (papers_world (pdf_sites (pdf_response False))) oa_paper ''papers'' =
     (Inr False, (papers_world (pdf_sites (pdf_response False)))
        \<lparr>requests := [unpaywall_url ''10.1/x'', ''https://host/a.pdf'']\<rparr>) \<and>
   urls_to_try oa_paper = [unpaywall_url ''10.1/x'', pmc_url ''101''] \<and>
   net (papers_world (pdf_sites (pdf_response False))) 2 (pmc_url ''101'')
     = Inr (pdf_response False)"
  by (simp add: try_download_paper_def mkdir_exist_ok_def papers_world_def
      target_filename_alpha oa_paper_def path_exists_def path_join_def urls_to_try_def
      truthy_str_def fmt_def try_url_def session_get_def pdf_sites_simps oa_response_def
      contains_pdf oa_document_def json_get_def download_pdf_direct_def
      download_pdf_direct_body_def try_except_def not_found_def)

lemma path_join_neq: "path_join d name \<noteq> d"
  by (simp add: path_join_def)

lemma mkdir_exist_ok_world:
  assumes "mkdir_exist_ok w d = (Inr u, w0)"
  shows "d \<in> dirs w0" and "requests w0 = requests w" and "files w0 = files w"
    and "net w0 = net w" and "dirs w0 = insert d (dirs w)" and "can_open w0 = can_open w"
    and "mkdir_exist_ok w0 d = (Inr (), w0)"
  using assms by (auto simp: mkdir_exist_ok_def split: if_splits)

lemma mkdir_exist_ok_succeeds:
  "d \<in> dirs w \<or> can_mkdir w d \<Longrightarrow> \<exists>w0. mkdir_exist_ok w d = (Inr (), w0)"
  by (auto simp: mkdir_exist_ok_def)

lemma path_exists_after_mkdir:
  assumes "mkdir_exist_ok w d = (Inr u, w0)"
  shows "path_exists w0 (path_join d name) = path_exists w (path_join d name)"
  using mkdir_exist_ok_world(3,5) [OF assms] by (simp add: path_exists_def path_join_neq)

text \<open>
  C4.  For a paper with neither \<open>doi\<close> nor \<open>pmid\<close> the download issues no request and
  writes no file, whatever else happens; and when the title is a string (so that the
  file name is defined), the download directory exists or can be created, and no file
  is at the target path, it returns \<open>False\<close>.
\<close>
theorem try_download_paper_no_identifiers:
  assumes "doi paper = None" and "pmid paper = None"
  shows "requests (snd (try_download_paper w paper download_dir)) = requests w \<and>
         files (snd (try_download_paper w paper download_dir)) = files w \<and>
         (target_filename paper = Inr filename \<and>
          (download_dir \<in> dirs w \<or> can_mkdir w download_dir) \<and>
          \<not> path_exists w (path_join download_dir filename) \<longrightarrow>
            fst (try_download_paper w paper download_dir) = Inr False)"
proof -
  have u: "urls_to_try paper = []"
    using assms by (simp add: urls_to_try_def truthy_str_def)
  have 1: "requests (snd (try_download_paper w paper download_dir)) = requests w"
    by (simp add: try_download_paper_def mkdir_exist_ok_def u Let_def split: sum.splits)
  have 2: "files (snd (try_download_paper w paper download_dir)) = files w"
    by (simp add: try_download_paper_def mkdir_exist_ok_def u Let_def split: sum.splits)
  have 3: "fst (try_download_paper w paper download_dir) = Inr False"
    if f: "target_filename paper = Inr filename"
      and d: "download_dir \<in> dirs w \<or> can_mkdir w download_dir"
      and n: "\<not> path_exists w (path_join download_dir filename)"
  proof -
    from mkdir_exist_ok_succeeds [OF d]
    obtain w0 where m: "mkdir_exist_ok w download_dir = (Inr (), w0)" by blast
    have "\<not> path_exists w0 (path_join download_dir filename)"
      using n by (simp add: path_exists_after_mkdir [OF m])
    then show ?thesis
      by (simp add: try_download_paper_def m f u)
  qed
  from 1 2 3 show ?thesis by blast
qed

lemma target_filename_bare: "target_filename bare_paper = Inr ''unknown_Alpha.pdf''"
  by (simp add: target_filename_def bare_paper_def unsafe_char_def is_word_def
      is_letter_def is_digit_def is_space_def truthy_str_def)

theorem try_download_paper_no_identifiers_witness:
  "fst (try_download_paper (papers_world (pdf_sites (pdf_response False))) bare_paper ''papers'')
     = Inr False \<and>
   requests (snd (try_download_paper (papers_world (pdf_sites (pdf_response False))) bare_paper
     ''papers'')) = []"
proof -
  let ?w = "papers_world (pdf_sites (pdf_response False))"
  have 1: "doi bare_paper = None" and 2: "pmid bare_paper = None"
    by (simp_all add: bare_paper_def)
  have 3: "''papers'' \<in> dirs ?w \<or> can_mkdir ?w ''papers''"
    by (simp add: papers_world_def)
  have 4: "\<not> path_exists ?w (path_join ''papers'' ''unknown_Alpha.pdf'')"
    by (simp add: papers_world_def path_exists_def path_join_neq)
  have 5: "requests ?w = []"
    by (simp add: papers_world_def)
  show ?thesis
    using try_download_paper_no_identifiers [OF 1 2, of ?w "''papers''" "''unknown_Alpha.pdf''"]
      target_filename_bare 3 4 5 by simp
qed

lemma try_download_paper_exists:
  assumes "mkdir_exist_ok w download_dir = (Inr (), w0)"
    and "target_filename paper = Inr filename"
    and "path_exists w0 (path_join download_dir filename)"
  shows "try_download_paper w paper download_dir = (Inr True, w0)"
  by (simp add: try_download_paper_def assms)

lemma try_download_paper_success_exists:
  assumes "try_download_paper w paper download_dir = (Inr True, w1)"
  shows "\<exists>filename. target_filename paper = Inr filename \<and>
           path_exists w1 (path_join download_dir filename) \<and> download_dir \<in> dirs w1"
proof -
  from assms obtain w0 where m: "mkdir_exist_ok w download_dir = (Inr (), w0)"
    by (auto simp: try_download_paper_def split: prod.splits sum.splits)
  from assms m obtain filename where f: "target_filename paper = Inr filename"
    by (auto simp: try_download_paper_def split: prod.splits sum.splits)
  let ?fp = "path_join download_dir filename"
  have d: "download_dir \<in> dirs w0" by (rule mkdir_exist_ok_world(1) [OF m])
  show ?thesis
  proof (cases "path_exists w0 ?fp")
    case True
    with assms m f have "w1 = w0" by (simp add: try_download_paper_def)
    with True f d show ?thesis by auto
  next
    case False
    with assms m f have t: "try_urls w0 ?fp (urls_to_try paper) = (True, w1)"
      by (auto simp: try_download_paper_def split: prod.splits)
    from try_urls_success [OF t] have "path_exists w1 ?fp" by (simp add: path_exists_def)
    moreover from try_urls_env [OF t] d have "download_dir \<in> dirs w1"
      by (simp add: same_env_def)
    ultimately show ?thesis using f by auto
  qed
qed

text \<open>
  C5.  When the target path exists, the download returns \<open>True\<close> without a request and
  without touching a file.  Hence a second call after a successful one, on the same
  paper and directory, returns \<open>True\<close> and leaves the world, its log of requests
  included, exactly as the first call left it.
\<close>
theorem try_download_paper_idempotent:
  "(mkdir_exist_ok w download_dir = (Inr (), w0) \<and> target_filename paper = Inr filename \<and>
      path_exists w0 (path_join download_dir filename) \<longrightarrow>
      try_download_paper w paper download_dir = (Inr True, w0) \<and>
      requests w0 = requests w \<and> files w0 = files w) \<and>
   (try_download_paper w paper download_dir = (Inr True, w1) \<longrightarrow>
      try_download_paper w1 paper download_dir = (Inr True, w1))"
proof (intro conjI impI)
  assume a: "mkdir_exist_ok w download_dir = (Inr (), w0) \<and> target_filename paper = Inr filename \<and>
      path_exists w0 (path_join download_dir filename)"
  then show "try_download_paper w paper download_dir = (Inr True, w0)"
    by (simp add: try_download_paper_exists)
  from a show "requests w0 = requests w" by (auto dest: mkdir_exist_ok_world(2))
  from a show "files w0 = files w" by (auto dest: mkdir_exist_ok_world(3))
next
  assume "try_download_paper w paper download_dir = (Inr True, w1)"
  from try_download_paper_success_exists [OF this]
  obtain filename where f: "target_filename paper = Inr filename"
    and e: "path_exists w1 (path_join download_dir filename)" and d: "download_dir \<in> dirs w1"
    by blast
  from d have "mkdir_exist_ok w1 download_dir = (Inr (), w1)"
    by (simp add: mkdir_exist_ok_def)
  then show "try_download_paper w1 paper download_dir = (Inr True, w1)"
    using f e by (rule try_download_paper_exists)
qed

lemma try_download_pmc_paper:
  "try_download_paper (papers_world (pdf_sites (pdf_response breaks))) pmc_paper ''papers'' =
     (Inr (\<not> breaks), (papers_world (pdf_sites (pdf_response breaks)))
        \<lparr>requests := [pmc_url ''101''],
         files := [''papers/101_Alpha.pdf'' \<mapsto> Bytes ''%PDF-1.4'']\<rparr>)"
  by (simp add: try_download_paper_def mkdir_exist_ok_def papers_world_def
      target_filename_alpha pmc_paper_def path_exists_def path_join_def urls_to_try_def
      truthy_str_def fmt_def try_url_def session_get_def pdf_sites_simps pdf_response_def
      contains_pdf write_chunks_def Let_def)

theorem try_download_paper_idempotent_witness:
  "try_download_paper (papers_world (pdf_sites (pdf_response False))) pmc_paper ''papers'' =
     (Inr True, (papers_world (pdf_sites (pdf_response False)))
        \<lparr>requests := [pmc_url ''101''],
         files := [''papers/101_Alpha.pdf'' \<mapsto> Bytes ''%PDF-1.4'']\<rparr>) \<and>
   try_download_paper ((papers_world (pdf_sites (pdf_response False)))
        \<lparr>requests := [pmc_url ''101''],
         files := [''papers/101_Alpha.pdf'' \<mapsto> Bytes ''%PDF-1.4'']\<rparr>) pmc_paper ''papers'' =
     (Inr True, (papers_world (pdf_sites (pdf_response False)))
        \<lparr>requests := [pmc_url ''101''],
         files := [''papers/101_Alpha.pdf'' \<mapsto> Bytes ''%PDF-1.4'']\<rparr>)"
  using try_download_paper_idempotent [of "papers_world (pdf_sites (pdf_response False))"
      "''papers''" "papers_world (pdf_sites (pdf_response False))" pmc_paper "''101_Alpha.pdf''"
      "(papers_world (pdf_sites (pdf_response False)))
        \<lparr>requests := [pmc_url ''101''],
         files := [''papers/101_Alpha.pdf'' \<mapsto> Bytes ''%PDF-1.4'']\<rparr>"]
    try_download_pmc_paper [of False]
  by simp







text \<open>
  C8, as stated, fails on a title with an underscore: \<open>\w\<close> matches the underscore, so
  the code keeps it, where the claim's character set removes it.
\<close>
theorem target_filename_underscore_counterexample:
  "target_filename underscore_paper = Inr ''7_a_b c-d.pdf'' \<and>
   spec_filename (pmid underscore_paper) ''a_b: c-d'' = ''7_ab c-d.pdf'' \<and>
   title underscore_paper = Some ''a_b: c-d''"
  by (simp add: target_filename_underscore)
     (simp add: spec_filename_def underscore_paper_def is_letter_def is_digit_def is_space_def)

text \<open>
  C8, amended: for a paper whose title is a string, the file name is the \<open>pmid\<close> (or
  \<open>unknown\<close> when it is \<open>None\<close> or empty), an underscore, the title without the
  characters outside letters, digits, underscore, whitespace and hyphen, cut to 50
  characters, and \<open>.pdf\<close>.
\<close>
theorem target_filename_derivation:
  "title paper = Some t \<Longrightarrow>
   target_filename paper =
     Inr ((case pmid paper of None \<Rightarrow> ''unknown'' | Some i \<Rightarrow> if i = [] then ''unknown'' else i)
          @ ''_''
          @ take 50 (filter (\<lambda>c. is_letter c \<or> is_digit c \<or> c = CHR ''_'' \<or> is_space c
                                  \<or> c = CHR ''-'') t)
          @ ''.pdf'')"
  by (auto simp: target_filename_def re_sub_delete_filter unsafe_char_def is_word_def
      truthy_str_def fmt_def split: option.splits
      intro!: arg_cong [where f = "take 50"] filter_cong)

theorem target_filename_derivation_witness:
  "title underscore_paper = Some ''a_b: c-d'' \<and>
   target_filename underscore_paper = Inr ''7_a_b c-d.pdf'' \<and>
   title bare_paper = Some ''Alpha'' \<and>
   target_filename bare_paper = Inr ''unknown_Alpha.pdf''"
  using target_filename_derivation [of underscore_paper "''a_b: c-d''"]
    target_filename_derivation [of bare_paper "''Alpha''"]
  by (simp add: underscore_paper_def bare_paper_def is_letter_def is_digit_def is_space_def)

section \<open>Properties of the commands\<close>

lemma download_loop_all_without_doi:
  "\<forall>paper \<in> set papers. \<not> truthy_str (doi paper) \<Longrightarrow>
   download_loop w papers_dir papers (downloaded, failed)
     = (Inr (downloaded, failed + length papers), w)"
  by (induction papers arbitrary: failed) (simp_all add: download_one_def)

text \<open>
  C10.  A record whose \<open>doi\<close> is \<open>None\<close> (or empty) is counted as failed by the loop of
  the \<open>download\<close> command, and the world stays as it is: no download is attempted, no
  request issued.  This holds also when the record has a \<open>pmid\<close>, for which the download
  function itself, had it been called, would have requested the repository URL.
\<close>
theorem download_skips_without_doi:
  "(\<not> truthy_str (doi paper) \<longrightarrow>
      download_one w papers_dir paper (downloaded, failed) = (Inr (downloaded, failed + 1), w) \<and>
      download_loop w papers_dir (paper # rest) (downloaded, failed)
        = download_loop w papers_dir rest (downloaded, failed + 1)) \<and>
   (\<not> truthy_str (doi paper) \<and> truthy_str (pmid paper) \<and>
    mkdir_exist_ok w papers_dir = (Inr (), w0) \<and> target_filename paper = Inr filename \<and>
    \<not> path_exists w0 (path_join papers_dir filename) \<longrightarrow>
      (\<exists>more. requests (snd (try_download_paper w paper papers_dir))
                = requests w @ pmc_url (fmt (pmid paper)) # more))"
proof (intro conjI impI)
  assume "\<not> truthy_str (doi paper)"
  then show "download_one w papers_dir paper (downloaded, failed)
      = (Inr (downloaded, failed + 1), w)"
    by (simp add: download_one_def)
  then show "download_loop w papers_dir (paper # rest) (downloaded, failed)
        = download_loop w papers_dir rest (downloaded, failed + 1)"
    by simp
next
  assume a: "\<not> truthy_str (doi paper) \<and> truthy_str (pmid paper) \<and>
    mkdir_exist_ok w papers_dir = (Inr (), w0) \<and> target_filename paper = Inr filename \<and>
    \<not> path_exists w0 (path_join papers_dir filename)"
  then have u: "urls_to_try paper = [pmc_url (fmt (pmid paper))]"
    by (simp add: urls_to_try_def)
  obtain b w1 where t: "try_urls w0 (path_join papers_dir filename) (urls_to_try paper) = (b, w1)"
    by (cases "try_urls w0 (path_join papers_dir filename) (urls_to_try paper)")
  from a t have r: "try_download_paper w paper papers_dir = (Inr b, w1)"
    by (simp add: try_download_paper_def)
  from try_urls_requests [OF t] u obtain more where
    "requests w1 = requests w0 @ more" and "more \<noteq> []" and "hd more = pmc_url (fmt (pmid paper))"
    by auto
  moreover from a have "requests w0 = requests w" by (auto dest: mkdir_exist_ok_world(2))
  ultimately have "requests w1 = requests w @ pmc_url (fmt (pmid paper)) # tl more"
    by (cases more) auto
  with r show "\<exists>more. requests (snd (try_download_paper w paper papers_dir))
                = requests w @ pmc_url (fmt (pmid paper)) # more"
    by auto
qed

theorem download_skips_without_doi_witness:
  "download_one (papers_world (pdf_sites (pdf_response False))) ''papers'' pmc_paper (0, 0)
     = (Inr (0, 1), papers_world (pdf_sites (pdf_response False))) \<and>
   requests (snd (try_download_paper (papers_world (pdf_sites (pdf_response False))) pmc_paper
       ''papers'')) = [pmc_url ''101'']"
proof -
  let ?w = "papers_world (pdf_sites (pdf_response False))"
  have 1: "\<not> truthy_str (doi pmc_paper)" and 2: "truthy_str (pmid pmc_paper)"
    by (simp_all add: pmc_paper_def truthy_str_def)
  have 3: "mkdir_exist_ok ?w ''papers'' = (Inr (), ?w)"
    by (simp add: mkdir_exist_ok_def papers_world_def)
  have 4: "target_filename pmc_paper = Inr ''101_Alpha.pdf''"
    by (simp add: target_filename_alpha pmc_paper_def)
  have 5: "\<not> path_exists ?w (path_join ''papers'' ''101_Alpha.pdf'')"
    by (simp add: papers_world_def path_exists_def path_join_neq)
  from download_skips_without_doi [of pmc_paper ?w "''papers''" 0 0 "[]" ?w "''101_Alpha.pdf''"]
    1 2 3 4 5 try_download_pmc_paper [of False]
  show ?thesis by simp
qed

section \<open>Properties of the JSON text\<close>

lemma skip_ws_ws: "is_ws c \<Longrightarrow> skip_ws (c # s) = skip_ws s"
  by (simp add: skip_ws_def)

lemma skip_ws_keep: "\<not> is_ws c \<Longrightarrow> skip_ws (c # s) = c # s"
  by (simp add: skip_ws_def)

lemma skip_ws_Nil: "skip_ws [] = []"
  by (simp add: skip_ws_def)

lemma skip_ws_idem: "skip_ws (skip_ws s) = skip_ws s"
  unfolding skip_ws_def by (induction s) simp_all

lemma skip_ws_newline_indent: "skip_ws (newline_indent level @ s) = skip_ws s"
proof -
  have "skip_ws (replicate n CHR '' '' @ s) = skip_ws s" for n
    by (induction n) (simp_all add: skip_ws_def is_ws_def)
  then show ?thesis
    by (simp add: newline_indent_def skip_ws_ws is_ws_def)
qed

lemma parse_value_skip: "parse_value m s = parse_value m (skip_ws s)"
  by (cases m) (simp_all add: skip_ws_idem)

lemma parse_members_skip: "parse_members m s = parse_members m (skip_ws s)"
  by (cases m) (simp_all add: skip_ws_idem)

lemma parse_items_skip: "parse_items m s = parse_items m (skip_ws s)"
  by (cases m) (simp_all add: parse_value_skip [symmetric])

lemma hex_value_hex_lower: "d < 16 \<Longrightarrow> hex_value (hex_lower d) = Some d"
proof -
  assume "d < 16"
  then have "d \<in> {0, 1, 2, 3, 4, 5, 6, 7, 8, 9, 10, 11, 12, 13, 14, 15}" by simp arith
  then show ?thesis
    by (auto simp: hex_value_def hex_lower_def)
qed

lemma hex_value_zero: "hex_value CHR ''0'' = Some 0"
  by (simp add: hex_value_def)

lemma of_char_less: "(of_char c :: nat) < 256"
  by (cases c) (simp add: of_char_Char horner_sum_eq_sum)

lemma hex4_escape:
  "hex4 CHR ''0'' CHR ''0'' (hex_lower ((of_char c :: nat) div 16))
      (hex_lower ((of_char c :: nat) mod 16)) = Some c"
proof -
  have "(of_char c :: nat) div 16 < 16" using of_char_less [of c] by arith
  moreover have "(of_char c :: nat) mod 16 < 16" by simp
  ultimately show ?thesis
    by (simp add: hex4_def hex_value_hex_lower hex_value_zero)
qed

lemma parse_string_escape:
  "parse_string (escape_char c @ t) = cons_result c (parse_string t)"
  by (simp add: escape_char_def unescape_def dq_def bs_def hex4_escape)

lemma parse_string_escapes:
  "parse_string (concat (map escape_char s) @ dq # r) = Some (s, r)"
  by (induction s) (simp_all add: parse_string_escape cons_result_def)

lemma parse_string_dumps_str:
  "parse_string (tl (dumps_str s) @ r) = Some (s, r)"
  by (simp add: dumps_str_def parse_string_escapes)

lemma is_ws_simps:
  "\<not> is_ws dq" "\<not> is_ws CHR ''n''" "\<not> is_ws CHR ''t''" "\<not> is_ws CHR ''f''"
  "\<not> is_ws CHR ''[''" "\<not> is_ws CHR '']''" "\<not> is_ws CHR ''{''" "\<not> is_ws CHR ''}''"
  "\<not> is_ws CHR '',''" "\<not> is_ws CHR '':''" "is_ws CHR '' ''"
  by (simp_all add: is_ws_def dq_def)

lemma round_trips_JNull: "round_trips JNull"
proof -
  have "parse_value m (''null'' @ r) = Some (JNull, r)" if "0 < m" for m r
  proof -
    from that obtain n where "m = Suc n" by (cases m) auto
    then show ?thesis
      by (simp add: skip_ws_keep is_ws_simps dq_def parse_literal_def)
  qed
  then show ?thesis
    by (simp add: round_trips_def is_ws_simps)
qed

lemma round_trips_JBool: "round_trips (JBool b)"
proof -
  have "parse_value m (dumps level (JBool b) @ r) = Some (JBool b, r)" if "0 < m" for m r level
  proof -
    from that obtain n where "m = Suc n" by (cases m) auto
    then show ?thesis
      by (cases b) (simp_all add: skip_ws_keep is_ws_simps dq_def parse_literal_def)
  qed
  then show ?thesis
    by (cases b) (simp_all add: round_trips_def is_ws_simps)
qed

lemma round_trips_JStr: "round_trips (JStr s)"
proof -
  have "parse_value m (dumps level (JStr s) @ r) = Some (JStr s, r)" if "0 < m" for m r level
  proof -
    from that obtain n where "m = Suc n" by (cases m) auto
    then show ?thesis
      by (simp add: dumps_str_def skip_ws_keep is_ws_simps parse_string_escapes)
  qed
  then show ?thesis
    by (simp add: round_trips_def dumps_str_def dq_def is_ws_def)
qed

lemma round_trips_hd:
  assumes "round_trips v"
  obtains c t where "dumps level v = c # t" and "\<not> is_ws c" and "c \<noteq> CHR '']''"
    and "c \<noteq> CHR ''}''"
  using assms unfolding round_trips_def by blast

lemma round_trips_parse:
  "round_trips v \<Longrightarrow> length (dumps level v) < m \<Longrightarrow>
     parse_value m (dumps level v @ r) = Some (v, r)"
  unfolding round_trips_def by blast

lemma skip_ws_dumps:
  assumes "round_trips v"
  shows "skip_ws (dumps level v @ r) = dumps level v @ r"
proof -
  from assms obtain c t where "dumps level v = c # t" and "\<not> is_ws c"
    by (rule round_trips_hd)
  then show ?thesis by (simp add: skip_ws_keep)
qed

lemma newline_indent_length: "0 < length (newline_indent level)"
  by (simp add: newline_indent_def)

lemma parse_items_round_trip:
  assumes "\<forall>v \<in> set vs. round_trips v" and "vs \<noteq> []"
    and "length (dumps_items level vs) + 1 < m"
  shows "parse_items m (dumps_items level vs @ newline_indent level' @ CHR '']'' # r)
           = Some (vs, r)"
  using assms
proof (induction vs arbitrary: m)
  case Nil
  then show ?case by simp
next
  case (Cons x xs)
  from Cons.prems(3) obtain n where m: "m = Suc n" by (cases m) auto
  have x: "round_trips x" using Cons.prems(1) by simp
  show ?case
  proof (cases xs)
    case Nil
    with Cons.prems(3) m have l: "length (dumps level x) < n" by simp
    show ?thesis
      unfolding m Nil
      by (simp add: round_trips_parse [OF x l] skip_ws_newline_indent skip_ws_keep is_ws_simps)
  next
    case (Cons y ys)
    with Cons.prems(3) m have l: "length (dumps level x) < n" by simp
    from Cons Cons.prems(3) m have l2: "length (dumps_items level xs) + 1 < n" by simp
    have "parse_items n (dumps_items level xs @ newline_indent level' @ CHR '']'' # r)
            = Some (xs, r)"
      using Cons.prems(1) Cons l2 by (intro Cons.IH) auto
    then have "parse_items n (newline_indent level @ dumps_items level xs
                 @ newline_indent level' @ CHR '']'' # r) = Some (xs, r)"
      by (subst parse_items_skip) (simp add: skip_ws_newline_indent parse_items_skip [symmetric])
    then show ?thesis
      unfolding m Cons
      using round_trips_parse [OF x l] by (simp add: skip_ws_keep is_ws_simps)
  qed
qed

lemma parse_members_round_trip:
  assumes "\<forall>v \<in> snd ` set kvs. round_trips v" and "kvs \<noteq> []"
    and "length (dumps_members level kvs) + 1 < m"
  shows "parse_members m (dumps_members level kvs @ newline_indent level' @ CHR ''}'' # r)
           = Some (kvs, r)"
  using assms
proof (induction kvs arbitrary: m)
  case Nil
  then show ?case by simp
next
  case (Cons kv kvs)
  obtain k v where kv: "kv = (k, v)" by (cases kv)
  from Cons.prems(3) obtain n where m: "m = Suc n" by (cases m) auto
  have v: "round_trips v" using Cons.prems(1) kv by simp
  have key: "parse_string (concat (map escape_char k) @ dq # t) = Some (k, t)" for t
    by (rule parse_string_escapes)
  have sp: "parse_value n (CHR '' '' # dumps level v @ t) = parse_value n (dumps level v @ t)"
    for t
    by (subst parse_value_skip)
       (simp add: skip_ws_ws is_ws_simps skip_ws_dumps [OF v] )
  show ?case
  proof (cases kvs)
    case Nil
    with Cons.prems(3) m kv have l: "length (dumps level v) < n" by simp
    show ?thesis
      unfolding m Nil kv
      by (simp add: dumps_str_def skip_ws_keep is_ws_simps key sp round_trips_parse [OF v l]
          skip_ws_newline_indent)
  next
    case (Cons kv' kvs')
    obtain k' v' where kv': "kv' = (k', v')" by (cases kv')
    from Cons kv' Cons.prems(3) m kv have l: "length (dumps level v) < n" by simp
    from Cons kv' Cons.prems(3) m kv have l2: "length (dumps_members level kvs) + 1 < n"
      by simp
    have "parse_members n (dumps_members level kvs @ newline_indent level' @ CHR ''}'' # r)
            = Some (kvs, r)"
      using Cons.prems(1) Cons l2 by (intro Cons.IH) auto
    then have "parse_members n (newline_indent level @ dumps_members level kvs
                 @ newline_indent level' @ CHR ''}'' # r) = Some (kvs, r)"
      by (subst parse_members_skip)
         (simp add: skip_ws_newline_indent parse_members_skip [symmetric])
    then show ?thesis
      unfolding m Cons kv kv'
      using round_trips_parse [OF v l]
      by (simp add: dumps_str_def skip_ws_keep is_ws_simps key sp)
  qed
qed

lemma round_trips_JArr:
  assumes "\<forall>v \<in> set vs. round_trips v"
  shows "round_trips (JArr vs)"
proof (cases vs)
  case Nil
  have "parse_value m (''[]'' @ r) = Some (JArr [], r)" if "0 < m" for m r
  proof -
    from that obtain n where "m = Suc n" by (cases m) auto
    then show ?thesis by (simp add: skip_ws_keep is_ws_simps dq_def)
  qed
  then show ?thesis
    by (simp add: round_trips_def Nil is_ws_simps)
next
  case (Cons x xs)
  have x: "round_trips x" using assms Cons by simp
  have "parse_value m (dumps level (JArr vs) @ r) = Some (JArr vs, r)"
    if "length (dumps level (JArr vs)) < m" for level r m
  proof -
    from that obtain n where m: "m = Suc n" by (cases m) auto
    from that m Cons have l: "length (dumps_items (Suc level) vs) + 1 < n"
      by (simp add: newline_indent_def)
    obtain c t where c: "dumps (Suc level) x = c # t" "\<not> is_ws c" "c \<noteq> CHR '']''"
      using x by (rule round_trips_hd)
    have hd: "\<exists>t'. dumps_items (Suc level) vs = c # t'"
      using Cons c(1) by (cases xs) simp_all
    then obtain t' where t': "dumps_items (Suc level) vs = c # t'" by blast
    have p: "parse_items n (newline_indent (Suc level) @ dumps_items (Suc level) vs
               @ newline_indent level @ CHR '']'' # r) = Some (vs, r)"
      using parse_items_round_trip [OF assms _ l, of level r] Cons
      by (subst parse_items_skip)
         (simp add: skip_ws_newline_indent parse_items_skip [symmetric])
    have s: "skip_ws (newline_indent (Suc level) @ dumps_items (Suc level) vs
               @ newline_indent level @ CHR '']'' # r)
             = c # t' @ newline_indent level @ CHR '']'' # r"
      by (simp add: skip_ws_newline_indent t' skip_ws_keep c(2))
    show ?thesis
      unfolding m using Cons p s c(3)
      by (simp add: skip_ws_keep is_ws_simps dq_def)
  qed
  then show ?thesis
    by (simp add: round_trips_def Cons is_ws_simps)
qed

lemma dict_set_fresh: "k \<notin> fst ` set d \<Longrightarrow> dict_set d k v = d @ [(k, v)]"
  by (induction d) auto

lemma dict_update_distinct:
  "distinct (map fst (d @ kvs)) \<Longrightarrow> dict_update d kvs = d @ kvs"
proof (induction kvs arbitrary: d)
  case Nil
  then show ?case by (simp add: dict_update_def)
next
  case (Cons kv kvs)
  obtain k v where kv: "kv = (k, v)" by (cases kv)
  from Cons.prems kv have f: "k \<notin> fst ` set d" by auto
  from Cons.prems kv have "distinct (map fst ((d @ [(k, v)]) @ kvs))" by simp
  from Cons.IH [OF this] show ?case
    by (simp add: dict_update_def kv dict_set_fresh [OF f])
qed

lemma round_trips_JObj:
  assumes "\<forall>v \<in> snd ` set kvs. round_trips v" and "distinct (map fst kvs)"
  shows "round_trips (JObj kvs)"
proof (cases kvs)
  case Nil
  have "parse_value m (''{}'' @ r) = Some (JObj [], r)" if "0 < m" for m r
  proof -
    from that obtain n where "m = Suc n" by (cases m) auto
    then show ?thesis by (simp add: skip_ws_keep is_ws_simps dq_def)
  qed
  then show ?thesis
    by (simp add: round_trips_def Nil is_ws_simps)
next
  case (Cons kv kvs')
  obtain k v where kv: "kv = (k, v)" by (cases kv)
  have d: "dict_update [] kvs = kvs"
    using dict_update_distinct [of "[]" kvs] assms(2) by simp
  have "parse_value m (dumps level (JObj kvs) @ r) = Some (JObj kvs, r)"
    if "length (dumps level (JObj kvs)) < m" for level r m
  proof -
    from that obtain n where m: "m = Suc n" by (cases m) auto
    from that m Cons have l: "length (dumps_members (Suc level) kvs) + 1 < n"
      by (simp add: newline_indent_def)
    have "\<exists>t'. dumps_members (Suc level) kvs = dq # t'"
      using Cons kv by (cases kvs') (auto simp: dumps_str_def)
    then obtain t' where t': "dumps_members (Suc level) kvs = dq # t'" by blast
    have p: "parse_members n (newline_indent (Suc level) @ dumps_members (Suc level) kvs
               @ newline_indent level @ CHR ''}'' # r) = Some (kvs, r)"
      using parse_members_round_trip [OF assms(1) _ l, of level r] Cons
      by (subst parse_members_skip)
         (simp add: skip_ws_newline_indent parse_members_skip [symmetric])
    have s: "skip_ws (newline_indent (Suc level) @ dumps_members (Suc level) kvs
               @ newline_indent level @ CHR ''}'' # r)
             = dq # t' @ newline_indent level @ CHR ''}'' # r"
      by (simp add: skip_ws_newline_indent t' skip_ws_keep is_ws_simps)
    show ?thesis
      unfolding m using Cons p s d
      by (simp add: skip_ws_keep is_ws_simps dq_def)
  qed
  then show ?thesis
    by (simp add: round_trips_def Cons is_ws_simps)
qed

lemma loads_dumps:
  assumes "round_trips v"
  shows "loads (dumps 0 v) = Inr v"
  using round_trips_parse [OF assms, of 0 "Suc (length (dumps 0 v))" "[]"]
  by (simp add: loads_def skip_ws_Nil)

lemma round_trips_opt_json: "round_trips (opt_json x)"
  by (cases x) (simp_all add: opt_json_def round_trips_JNull round_trips_JStr)

lemma round_trips_paper_json: "round_trips (paper_json p)"
  unfolding paper_json_def
  by (rule round_trips_JObj) (auto simp: round_trips_opt_json intro!: round_trips_JArr)

lemma round_trips_papers_json: "round_trips (papers_json papers)"
  unfolding papers_json_def
  by (rule round_trips_JArr) (auto simp: round_trips_paper_json)

lemma loads_dumps_papers: "loads (dumps 0 (papers_json papers)) = Inr (papers_json papers)"
  by (rule loads_dumps [OF round_trips_papers_json])

section \<open>Properties of saving and loading\<close>

lemma write_loop_done:
  "write_loop w filepath data cs = (Inr u, w1) \<Longrightarrow> files w filepath = Some (Bytes data) \<Longrightarrow>
     files w1 = (files w)(filepath \<mapsto> Bytes (data @ concat cs))"
proof (induction cs arbitrary: w data)
  case Nil
  then show ?case by (auto simp: fun_upd_idem_iff)
next
  case (Cons c cs)
  show ?case
  proof (cases "can_write w filepath (length data + length c)")
    case True
    let ?w = "w\<lparr>files := (files w)(filepath \<mapsto> Bytes (data @ c))\<rparr>"
    from Cons.prems(1) True have "write_loop ?w filepath (data @ c) cs = (Inr u, w1)" by simp
    from Cons.IH [OF this] show ?thesis by (simp add: fun_eq_iff)
  next
    case False
    with Cons.prems(1) show ?thesis by simp
  qed
qed

lemma concat_singletons: "concat (map (\<lambda>c. [c]) t) = t"
  by (induction t) simp_all

lemma write_text_done:
  assumes "write_text w filepath t = (Inr u, w1)"
  shows "files w1 = (files w)(filepath \<mapsto> Bytes t)" and "same_env w w1"
proof -
  let ?w = "w\<lparr>files := (files w)(filepath \<mapsto> Bytes [])\<rparr>"
  from assms have l: "write_loop ?w filepath [] (map (\<lambda>c. [c]) t) = (Inr u, w1)"
    by (simp add: write_text_def split: if_splits)
  have "files ?w filepath = Some (Bytes [])" by simp
  from write_loop_done [OF l this] show "files w1 = (files w)(filepath \<mapsto> Bytes t)"
    by (simp add: concat_singletons)
  have "same_env w ?w" by (simp add: same_env_def)
  with write_loop_env [OF l] show "same_env w w1" by (rule same_env_trans [rotated])
qed

lemma write_text_succeeds:
  assumes "can_open w filepath" and "\<forall>n. can_write w filepath n"
  shows "\<exists>w1. write_text w filepath t = (Inr (), w1)"
proof -
  let ?w = "w\<lparr>files := (files w)(filepath \<mapsto> Bytes [])\<rparr>"
  have "\<forall>n. can_write ?w filepath n" using assms(2) by simp
  from write_loop_steady [OF this]
  have "fst (write_loop ?w filepath [] (map (\<lambda>c. [c]) t)) = Inr ()" .
  then show ?thesis using assms(1) by (simp add: write_text_def) (metis prod.collapse)
qed

lemma path_join_inject: "path_join d a = path_join d b \<longleftrightarrow> a = b"
  by (simp add: path_join_def)

lemma update_metadata_done:
  assumes "update_metadata w project_dir updates now = (Inr u, w1)"
  shows "\<exists>t. files w1 = (files w)(path_join project_dir ''metadata.json'' \<mapsto> Bytes t)"
    and "same_env w w1"
proof -
  from assms obtain t where
    "write_text w (path_join project_dir ''metadata.json'') t = (Inr u, w1)"
    by (auto simp: update_metadata_def Let_def split: if_splits sum.splits json.splits)
  from write_text_done [OF this]
  show "\<exists>t. files w1 = (files w)(path_join project_dir ''metadata.json'' \<mapsto> Bytes t)"
    and "same_env w w1"
    by blast+
qed

lemma update_metadata_succeeds:
  assumes "path_exists w (path_join project_dir ''metadata.json'') \<longrightarrow>
             (\<exists>metadata. read_text w (path_join project_dir ''metadata.json'') = Inr metadata \<and>
                (\<exists>kvs. loads metadata = Inr (JObj kvs)))"
    and "can_open w (path_join project_dir ''metadata.json'')"
    and "\<forall>n. can_write w (path_join project_dir ''metadata.json'') n"
  shows "\<exists>w1. update_metadata w project_dir updates now = (Inr (), w1)"
  using assms(1) write_text_succeeds [OF assms(2,3)]
  by (auto simp: update_metadata_def Let_def)

lemma is_ascii_simps:
  "is_ascii []" "is_ascii (c # t) \<longleftrightarrow> (of_char c :: nat) < 128 \<and> is_ascii t"
  "is_ascii (a @ b) \<longleftrightarrow> is_ascii a \<and> is_ascii b"
  by (simp_all add: is_ascii_def)

lemma is_ascii_concat: "(\<And>x. x \<in> set xs \<Longrightarrow> is_ascii x) \<Longrightarrow> is_ascii (concat xs)"
  by (induction xs) (simp_all add: is_ascii_simps)

lemma is_ascii_hex_lower: "d < 16 \<Longrightarrow> (of_char (hex_lower d) :: nat) < 128"
proof -
  assume "d < 16"
  then have "d \<in> {0, 1, 2, 3, 4, 5, 6, 7, 8, 9, 10, 11, 12, 13, 14, 15}" by simp arith
  then show ?thesis
    by (auto simp: hex_lower_def)
qed

lemma is_ascii_digit_char: "d < 10 \<Longrightarrow> (of_char (digit_char d) :: nat) < 128"
proof -
  assume "d < 10"
  then have "d \<in> {0, 1, 2, 3, 4, 5, 6, 7, 8, 9}" by simp arith
  then show ?thesis
    by (auto simp: digit_char_def)
qed

lemma is_ascii_escape_char: "is_ascii (escape_char c)"
proof -
  have "(of_char c :: nat) div 16 < 16" using of_char_less [of c] by arith
  moreover have "(of_char c :: nat) mod 16 < 16" by simp
  ultimately show ?thesis
    by (simp add: escape_char_def is_ascii_simps dq_def bs_def is_ascii_hex_lower)
qed

lemma is_ascii_dumps_str: "is_ascii (dumps_str s)"
  by (auto simp: dumps_str_def is_ascii_simps dq_def is_ascii_escape_char
      intro!: is_ascii_concat)

lemma is_ascii_str_nat: "is_ascii (str_nat n)"
proof (induction n rule: str_nat.induct)
  case (1 n)
  show ?case
  proof (cases "n < 10")
    case True
    then show ?thesis
      by (subst str_nat.simps) (simp add: is_ascii_simps is_ascii_digit_char)
  next
    case False
    with 1 show ?thesis
      by (subst str_nat.simps) (simp add: is_ascii_simps is_ascii_digit_char)
  qed
qed

lemma is_ascii_newline_indent: "is_ascii (newline_indent level)"
  by (simp add: newline_indent_def is_ascii_def list_all_iff)

lemma is_ascii_dumps:
  "is_ascii (dumps level v)" "is_ascii (dumps_items level vs)"
  "is_ascii (dumps_members level kvs)"
  by (induction level v and level vs and level kvs
      rule: dumps_dumps_items_dumps_members.induct)
     (simp_all add: is_ascii_simps is_ascii_dumps_str is_ascii_newline_indent
        is_ascii_str_nat str_int_def)

lemma opt_json_inject: "opt_json x = opt_json y \<longleftrightarrow> x = y"
  by (cases x; cases y) (simp_all add: opt_json_def)

lemma map_opt_json_inject: "map opt_json xs = map opt_json ys \<longleftrightarrow> xs = ys"
  by (rule inj_map_eq_map) (simp add: inj_def opt_json_inject)

lemma paper_json_inject: "paper_json p = paper_json q \<longleftrightarrow> p = q"
  by (cases p; cases q) (auto simp: paper_json_def opt_json_inject map_opt_json_inject)

lemma papers_json_inject: "papers_json ps = papers_json qs \<longleftrightarrow> ps = qs"
  unfolding papers_json_def using inj_map_eq_map [of paper_json ps qs]
  by (simp add: inj_def paper_json_inject)

lemma save_papers_done:
  assumes "save_papers w project_dir papers = (Inr u, w1)"
  shows "files w1 = (files w)(path_join project_dir ''papers_metadata.json''
           \<mapsto> Bytes (dumps 0 (papers_json papers)))" and "same_env w w1"
  using write_text_done [OF assms [unfolded save_papers_def]] by simp_all

lemma load_papers_saved:
  assumes "files w (path_join (path_join base_dir project_name) ''papers_metadata.json'')
             = Some (Bytes (dumps 0 (papers_json papers)))"
    and "path_join base_dir project_name \<in> dirs w"
    and "can_read w (path_join (path_join base_dir project_name) ''papers_metadata.json'')"
  shows "load_papers w base_dir project_name = Inr (Loaded (papers_json papers))"
proof -
  have "read_text w (path_join (path_join base_dir project_name) ''papers_metadata.json'')
          = Inr (dumps 0 (papers_json papers))"
    using assms(1,3) by (simp add: read_text_def is_ascii_dumps)
  moreover have "path_exists w (path_join base_dir project_name)"
    using assms(2) by (simp add: path_exists_def)
  moreover have "path_exists w (path_join (path_join base_dir project_name)
      ''papers_metadata.json'')"
    using assms(1) by (auto simp: path_exists_def)
  ultimately show ?thesis
    by (simp add: load_papers_def Let_def loads_dumps_papers)
qed

lemma search_command_save_done:
  assumes "search_command_save w project_dir papers now = (Inr u, w1)" and "papers \<noteq> []"
  shows "files w1 (path_join project_dir ''papers_metadata.json'')
           = Some (Bytes (dumps 0 (papers_json papers)))"
    and "same_env w w1"
    and "\<forall>p. p \<noteq> path_join project_dir ''papers_metadata.json'' \<and>
             p \<noteq> path_join project_dir ''metadata.json'' \<longrightarrow> files w1 p = files w p"
proof -
  from assms obtain w0 where
    m: "update_metadata w project_dir
          [(''papers_found'', JNum (int (length papers))),
           (''status'', JStr ''search_complete'')] now = (Inr (), w0)"
    and s: "save_papers w0 project_dir papers = (Inr u, w1)"
    by (auto simp: search_command_save_def split: prod.splits sum.splits)
  from save_papers_done(1) [OF s]
  show "files w1 (path_join project_dir ''papers_metadata.json'')
           = Some (Bytes (dumps 0 (papers_json papers)))" by simp
  from update_metadata_done(2) [OF m] save_papers_done(2) [OF s]
  show "same_env w w1" by (rule same_env_trans)
  from update_metadata_done(1) [OF m] save_papers_done(1) [OF s]
  show "\<forall>p. p \<noteq> path_join project_dir ''papers_metadata.json'' \<and>
             p \<noteq> path_join project_dir ''metadata.json'' \<longrightarrow> files w1 p = files w p"
    by auto
qed

lemma search_command_save_succeeds:
  assumes "path_exists w (path_join project_dir ''metadata.json'') \<longrightarrow>
             (\<exists>metadata. read_text w (path_join project_dir ''metadata.json'') = Inr metadata \<and>
                (\<exists>kvs. loads metadata = Inr (JObj kvs)))"
    and "can_open w (path_join project_dir ''metadata.json'')"
    and "can_open w (path_join project_dir ''papers_metadata.json'')"
    and "\<forall>n. can_write w (path_join project_dir ''metadata.json'') n"
    and "\<forall>n. can_write w (path_join project_dir ''papers_metadata.json'') n"
  shows "\<exists>w1. search_command_save w project_dir papers now = (Inr (), w1)"
proof (cases "papers = []")
  case True
  then show ?thesis by (simp add: search_command_save_def)
next
  case False
  from update_metadata_succeeds [OF assms(1,2,4)] obtain w0 where
    m: "update_metadata w project_dir
          [(''papers_found'', JNum (int (length papers))),
           (''status'', JStr ''search_complete'')] now = (Inr (), w0)"
    by blast
  from update_metadata_done(2) [OF m] have e: "same_env w w0" .
  then have "can_open w0 (path_join project_dir ''papers_metadata.json'')"
    and "\<forall>n. can_write w0 (path_join project_dir ''papers_metadata.json'') n"
    using assms(3,5) by (simp_all add: same_env_def)
  from write_text_succeeds [OF this] obtain w1 where
    "save_papers w0 project_dir papers = (Inr (), w1)"
    unfolding save_papers_def by blast
  with m False show ?thesis by (simp add: search_command_save_def)
qed

lemma loads_metadata_example:
  "loads (''{'' @ [CHR 0x22] @ ''status'' @ [CHR 0x22] @ '': '' @ [CHR 0x22]
                       @ ''created'' @ [CHR 0x22] @ ''}'') = Inr (JObj [(''status'', JStr ''created'')])"
  by (simp add: loads_def skip_ws_def is_ws_def dq_def bs_def cons_result_def dict_update_def)

text \<open>
  C9.  The \<open>search\<close> command saves a list of papers only when it is not empty.  For
  every such list: when the save completes in an existing project directory, the
  results document holds the JSON text of the list, whatever document was there before,
  no file but the two documents of the project has changed, and the \<open>download\<close>
  command loads from it the value of exactly that list, element for element and in the
  same order (no other list has that value).  The save does complete when the operating
  system permits opening and writing the two documents and the metadata document, if
  there is one, is read as a dictionary.
\<close>
theorem save_then_load_papers:
  "(papers \<noteq> [] \<and> project_dir = path_join base_dir project_name \<and> project_dir \<in> dirs w \<and>
    can_read w (path_join project_dir ''papers_metadata.json'') \<and>
    search_command_save w project_dir papers now = (Inr (), w1) \<longrightarrow>
      files w1 (path_join project_dir ''papers_metadata.json'')
        = Some (Bytes (dumps 0 (papers_json papers))) \<and>
      (\<forall>p. p \<noteq> path_join project_dir ''papers_metadata.json'' \<and>
           p \<noteq> path_join project_dir ''metadata.json'' \<longrightarrow> files w1 p = files w p) \<and>
      load_papers w1 base_dir project_name = Inr (Loaded (papers_json papers))) \<and>
   (papers \<noteq> [] \<and>
    (path_exists w (path_join project_dir ''metadata.json'') \<longrightarrow>
       (\<exists>metadata. read_text w (path_join project_dir ''metadata.json'') = Inr metadata \<and>
          (\<exists>kvs. loads metadata = Inr (JObj kvs)))) \<and>
    can_open w (path_join project_dir ''metadata.json'') \<and>
    can_open w (path_join project_dir ''papers_metadata.json'') \<and>
    (\<forall>n. can_write w (path_join project_dir ''metadata.json'') n) \<and>
    (\<forall>n. can_write w (path_join project_dir ''papers_metadata.json'') n) \<longrightarrow>
      (\<exists>w2. search_command_save w project_dir papers now = (Inr (), w2))) \<and>
   (\<forall>other. papers_json other = papers_json papers \<longrightarrow> other = papers)"
proof -
  have 1: "files w1 (path_join project_dir ''papers_metadata.json'')
        = Some (Bytes (dumps 0 (papers_json papers))) \<and>
      (\<forall>p. p \<noteq> path_join project_dir ''papers_metadata.json'' \<and>
           p \<noteq> path_join project_dir ''metadata.json'' \<longrightarrow> files w1 p = files w p) \<and>
      load_papers w1 base_dir project_name = Inr (Loaded (papers_json papers))"
    if a: "papers \<noteq> [] \<and> project_dir = path_join base_dir project_name \<and>
      project_dir \<in> dirs w \<and> can_read w (path_join project_dir ''papers_metadata.json'') \<and>
      search_command_save w project_dir papers now = (Inr (), w1)"
  proof -
    from a have s: "search_command_save w project_dir papers now = (Inr (), w1)"
      and n: "papers \<noteq> []" by blast+
    note f = search_command_save_done(1) [OF s n]
    from search_command_save_done(2) [OF s n] a
    have "path_join base_dir project_name \<in> dirs w1"
      and "can_read w1 (path_join (path_join base_dir project_name) ''papers_metadata.json'')"
      by (auto simp: same_env_def)
    with f a have "load_papers w1 base_dir project_name = Inr (Loaded (papers_json papers))"
      by (intro load_papers_saved) auto
    with f search_command_save_done(3) [OF s n] show ?thesis by (intro conjI)
  qed
  have 2: "\<exists>w2. search_command_save w project_dir papers now = (Inr (), w2)"
    if "papers \<noteq> [] \<and>
      (path_exists w (path_join project_dir ''metadata.json'') \<longrightarrow>
         (\<exists>metadata. read_text w (path_join project_dir ''metadata.json'') = Inr metadata \<and>
            (\<exists>kvs. loads metadata = Inr (JObj kvs)))) \<and>
      can_open w (path_join project_dir ''metadata.json'') \<and>
      can_open w (path_join project_dir ''papers_metadata.json'') \<and>
      (\<forall>n. can_write w (path_join project_dir ''metadata.json'') n) \<and>
      (\<forall>n. can_write w (path_join project_dir ''papers_metadata.json'') n)"
    using that by (intro search_command_save_succeeds) simp_all
  have 3: "\<forall>other. papers_json other = papers_json papers \<longrightarrow> other = papers"
    by (simp add: papers_json_inject)
  show ?thesis
    by (rule conjI, rule impI, erule 1, rule conjI, rule impI, erule 2, rule 3)
qed

text \<open>
  An example: in a project that holds the results of an earlier search, saving two
  papers and loading gives those two, in their order.
\<close>
theorem save_then_load_papers_witness:
  "load_papers project_world ''research_projects'' ''p1''
     = Inr (Loaded (papers_json [default_paper])) \<and>
   load_papers (snd (search_command_save project_world ''research_projects/p1''
        [found_paper ''103'' ''Gamma'', found_paper ''101'' ''Alpha''] ''2024-05-01T10:00:00''))
      ''research_projects'' ''p1''
     = Inr (Loaded (papers_json [found_paper ''103'' ''Gamma'', found_paper ''101'' ''Alpha'']))"
proof -
  let ?papers = "[found_paper ''103'' ''Gamma'', found_paper ''101'' ''Alpha'']"
  note t = save_then_load_papers [of ?papers "''research_projects/p1''" "''research_projects''"
      "''p1''" project_world "''2024-05-01T10:00:00''"]
  have r: "read_text project_world (path_join ''research_projects/p1'' ''metadata.json'')
             = Inr (''{'' @ [CHR 0x22] @ ''status'' @ [CHR 0x22] @ '': '' @ [CHR 0x22]
                       @ ''created'' @ [CHR 0x22] @ ''}'')"
    by (simp add: read_text_def project_world_def path_join_def is_ascii_def)
  have p: "can_open project_world (path_join ''research_projects/p1'' ''metadata.json'')"
    "can_open project_world (path_join ''research_projects/p1'' ''papers_metadata.json'')"
    "\<forall>n. can_write project_world (path_join ''research_projects/p1'' ''metadata.json'') n"
    "\<forall>n. can_write project_world (path_join ''research_projects/p1'' ''papers_metadata.json'') n"
    "can_read project_world (path_join ''research_projects/p1'' ''papers_metadata.json'')"
    by (simp_all add: project_world_def)
  have d: "''research_projects/p1'' = path_join ''research_projects'' ''p1''"
    "''research_projects/p1'' \<in> dirs project_world"
    by (simp_all add: project_world_def path_join_def)
  from t r p loads_metadata_example
  have "\<exists>w2. search_command_save project_world ''research_projects/p1'' ?papers
          ''2024-05-01T10:00:00'' = (Inr (), w2)"
    by simp
  then obtain w2 where
    s: "search_command_save project_world ''research_projects/p1'' ?papers
          ''2024-05-01T10:00:00'' = (Inr (), w2)"
    by blast
  from t [of w2] s p(5) d
  have "load_papers w2 ''research_projects'' ''p1'' = Inr (Loaded (papers_json ?papers))"
    by simp
  moreover have "load_papers project_world ''research_projects'' ''p1''
     = Inr (Loaded (papers_json [default_paper]))"
    by (rule load_papers_saved) (simp_all add: project_world_def path_join_def)
  ultimately show ?thesis using s by simp
qed

text \<open>
  With the empty list the command returns before it saves: in a new project loading
  finds no results document, and in a project with earlier results it finds those, not
  the empty list.
\<close>
theorem save_empty_list_counterexample:
  "search_command_save new_project_world ''research_projects/p1'' [] ''2024-05-01T10:00:00''
     = (Inr (), new_project_world) \<and>
   load_papers new_project_world ''research_projects'' ''p1'' = Inr NoPapersMetadata \<and>
   search_command_save project_world ''research_projects/p1'' [] ''2024-05-01T10:00:00''
     = (Inr (), project_world) \<and>
   load_papers project_world ''research_projects'' ''p1''
     = Inr (Loaded (papers_json [default_paper])) \<and>
   papers_json [default_paper] \<noteq> papers_json []"
proof -
  have "load_papers project_world ''research_projects'' ''p1''
     = Inr (Loaded (papers_json [default_paper]))"
    by (rule load_papers_saved) (simp_all add: project_world_def path_join_def)
  moreover have "load_papers new_project_world ''research_projects'' ''p1''
     = Inr NoPapersMetadata"
    by (simp add: load_papers_def new_project_world_def path_exists_def path_join_def)
  ultimately show ?thesis
    by (simp add: search_command_save_def papers_json_def)
qed

end
